theory Spec2Isabelle
  imports Main "HOL-Library.AList"
begin

section \<open>Issues\<close>

text \<open>
  An issue as the server returns it (\<^verbatim>\<open>res.data.issues\<close>). Only the fields the
  resolver and the browser's control flow read are kept; a field the server may
  leave out is an option.
\<close>

record textRange =
  startLine :: int
  endLine :: int

record issue =
  key :: string
  severity :: string
  type :: string
  status :: "string option"
  message :: "string option"
  component :: "string option"
  line :: "int option"
  textRange :: "textRange option"

section \<open>JavaScript strings and arrays\<close>

definition LF :: char where
  "LF = CHR 0x0A"

definition CR :: char where
  "CR = CHR 0x0D"

text \<open>\<^verbatim>\<open>xs.join("\n")\<close>: the empty array gives the empty string.\<close>

fun join_nl :: "string list \<Rightarrow> string" where
  "join_nl [] = []"
| "join_nl [x] = x"
| "join_nl (x # y # ys) = x @ LF # join_nl (y # ys)"

text \<open>
  \<^verbatim>\<open>content.split(/\r?\n/)\<close>: the scan goes left to right; a line feed, or a carriage
  return directly followed by a line feed, ends the current piece. The result is never
  empty: a string with no separator is its only piece.
\<close>

fun cons_first :: "char \<Rightarrow> string list \<Rightarrow> string list" where
  "cons_first c [] = [[c]]"
| "cons_first c (l # ls) = (c # l) # ls"

fun split_lines :: "string \<Rightarrow> string list" where
  "split_lines [] = [[]]"
| "split_lines [c] = (if c = LF then [[], []] else [[c]])"
| "split_lines (c # d # cs) =
     (if c = CR \<and> d = LF then [] # split_lines cs
      else if c = LF then [] # split_lines (d # cs)
      else cons_first c (split_lines (d # cs)))"

text \<open>\<^verbatim>\<open>n.toString()\<close> for an integer, in decimal.\<close>

fun digits :: "nat \<Rightarrow> string" where
  "digits n =
     (if n < 10 then [''0123456789'' ! n]
      else digits (n div 10) @ [''0123456789'' ! (n mod 10)])"

declare digits.simps [simp del]

definition toString :: "int \<Rightarrow> string" where
  "toString i = (if i < 0 then CHR ''-'' # digits (nat (- i)) else digits (nat i))"

text \<open>\<^verbatim>\<open>s.padStart(w)\<close>: spaces on the left up to width \<open>w\<close>; a longer string is kept.\<close>

definition padStart :: "nat \<Rightarrow> string \<Rightarrow> string" where
  "padStart w s = replicate (w - length s) CHR '' '' @ s"

text \<open>
  \<^verbatim>\<open>`${lines[i]}`\<close>: an index outside the array reads \<^verbatim>\<open>undefined\<close>, which the
  template prints as the word.
\<close>

definition line_text :: "string list \<Rightarrow> int \<Rightarrow> string" where
  "line_text lines i =
     (if 0 \<le> i \<and> i < int (length lines) then lines ! nat i else ''undefined'')"

section \<open>The snippet resolver (\<^verbatim>\<open>getIssueSource\<close>)\<close>

text \<open>
  The two source endpoints, as the answers the server gives for a component key under
  the session's host and token. A request either fails (the HTTP client rejects: any
  transport or status error) or resolves with the response body.
\<close>

datatype 'a response = Failed | Resolved 'a

text \<open>
  The body of \<^verbatim>\<open>/api/sources/raw\<close>. It is meant to be the file's text; a body that is
  not a string is kept with its truthiness, which is all the code can observe of it
  before \<^verbatim>\<open>split\<close> fails on it.
\<close>

datatype raw_body = Text string | NonText bool

text \<open>
  The body of \<^verbatim>\<open>/api/sources/show\<close>: \<open>Sources\<close> when \<^verbatim>\<open>data.sources\<close> is an array
  of per-line records, \<open>NoSources\<close> when the body is falsy or \<^verbatim>\<open>sources\<close> is not
  an array.
\<close>

record source_line =
  code :: string

datatype show_body = NoSources | Sources "source_line list"

record server =
  sources_raw :: "string \<Rightarrow> raw_body response"
  sources_show :: "string \<Rightarrow> show_body response"

text \<open>
  The resolver's result: \<^verbatim>\<open>{ content, snippet: null }\<close> when the issue carries no focus
  line, \<^verbatim>\<open>{ content, snippet, start, end, focus }\<close> otherwise. \<^verbatim>\<open>null\<close> is \<open>None\<close>.
\<close>

datatype issue_source =
  NoWindow string
| Window string string int int int

fun content :: "issue_source \<Rightarrow> string" where
  "content (NoWindow c) = c"
| "content (Window c s a b f) = c"

fun snippet :: "issue_source \<Rightarrow> string option" where
  "snippet (NoWindow c) = None"
| "snippet (Window c s a b f) = Some s"

datatype js_error = RequestError | TypeError

text \<open>
  The inner \<^verbatim>\<open>try\<close>/\<^verbatim>\<open>catch\<close>: the raw endpoint first; on any failure of that call the
  structured endpoint, whose own failure is thrown on. \<open>Inr None\<close> is the
  \<^verbatim>\<open>return null\<close> of the branch where \<^verbatim>\<open>sources\<close> is not an array.
\<close>

definition fetch_content :: "server \<Rightarrow> string \<Rightarrow> js_error + raw_body option" where
  "fetch_content srv k =
     (case sources_raw srv k of
        Resolved body \<Rightarrow> Inr (Some body)
      | Failed \<Rightarrow>
          (case sources_show srv k of
             Failed \<Rightarrow> Inl RequestError
           | Resolved NoSources \<Rightarrow> Inr None
           | Resolved (Sources ls) \<Rightarrow> Inr (Some (Text (join_nl (map code ls))))))"

text \<open>\<^verbatim>\<open>issue.line || issue.textRange?.startLine\<close>: a line of \<open>0\<close> is falsy.\<close>

definition focusLine :: "issue \<Rightarrow> int option" where
  "focusLine i =
     (case line i of
        Some n \<Rightarrow> if n \<noteq> 0 then Some n else map_option startLine (textRange i)
      | None \<Rightarrow> map_option startLine (textRange i))"

definition snippet_line :: "string list \<Rightarrow> int \<Rightarrow> int \<Rightarrow> string" where
  "snippet_line lines idx ln =
     (if ln = idx then ''>'' else '' '') @ '' '' @ padStart 4 (toString ln) @ '' | ''
       @ line_text lines (ln - 1)"

text \<open>The loop \<^verbatim>\<open>for (let ln = start; ln <= end; ln++)\<close> and the array it fills.\<close>

function snippetLines :: "string list \<Rightarrow> int \<Rightarrow> int \<Rightarrow> int \<Rightarrow> string list" where
  "snippetLines lines idx ln e =
     (if ln \<le> e then snippet_line lines idx ln # snippetLines lines idx (ln + 1) e else [])"
  by pat_completeness auto
termination
  by (relation "measure (\<lambda>(lines, idx, ln, e). nat (e + 1 - ln))") auto

declare snippetLines.simps [simp del]

text \<open>
  Everything after the content is there: the split, the focus line and the window.
  \<^verbatim>\<open>split\<close> on a truthy body that is not a string throws.
\<close>

definition slice_content :: "raw_body \<Rightarrow> issue \<Rightarrow> int \<Rightarrow> js_error + issue_source option" where
  "slice_content body i contextLines =
     (case body of
        NonText truthy \<Rightarrow> if truthy then Inl TypeError else Inr None
      | Text c \<Rightarrow>
          if c = [] then Inr None
          else
            let lines = split_lines c in
            (case focusLine i of
               None \<Rightarrow> Inr (Some (NoWindow c))
             | Some focus \<Rightarrow>
                 if focus = 0 then Inr (Some (NoWindow c))
                 else
                   let idx = max 1 focus;
                       start = max 1 (idx - contextLines);
                       e = min (int (length lines)) (idx + contextLines)
                   in Inr (Some (Window c (join_nl (snippetLines lines idx start e))
                                   start e idx))))"

text \<open>The body of the outer \<^verbatim>\<open>try\<close>, with what it throws.\<close>

definition getIssueSource_try :: "server \<Rightarrow> issue \<Rightarrow> int \<Rightarrow> js_error + issue_source option" where
  "getIssueSource_try srv i contextLines =
     (case component i of
        None \<Rightarrow> Inr None
      | Some k \<Rightarrow>
          (case fetch_content srv k of
             Inl err \<Rightarrow> Inl err
           | Inr None \<Rightarrow> Inr None
           | Inr (Some body) \<Rightarrow> slice_content body i contextLines))"

text \<open>
  \<^verbatim>\<open>getIssueSource({ token, host, issue, contextLines = 5 })\<close>. A missing issue, or one
  with no component or an empty one, returns \<^verbatim>\<open>null\<close> before any request; the outer
  \<^verbatim>\<open>catch\<close> turns every error into \<^verbatim>\<open>null\<close>.
\<close>

definition getIssueSource :: "server \<Rightarrow> issue option \<Rightarrow> int \<Rightarrow> issue_source option" where
  "getIssueSource srv io contextLines =
     (case io of
        None \<Rightarrow> None
      | Some i \<Rightarrow>
          if component i = None \<or> component i = Some [] then None
          else (case getIssueSource_try srv i contextLines of
                  Inl err \<Rightarrow> None
                | Inr r \<Rightarrow> r))"

definition defaultContextLines :: int where
  "defaultContextLines = 5"

section \<open>The interactive browser (\<^verbatim>\<open>browseIssuesTui\<close>)\<close>

text \<open>
  What the panes hold. The detail body is text built from the issue (and the branch the
  browser was started on, which no handler assigns) and the code pane's text is the
  highlighter applied to the snippet and the issue, so a pane is modelled by the values
  its text is computed from.
\<close>

datatype detail_pane = DetailBlank | DetailOf issue

datatype code_pane = CodeBlank | CodeLoading | CodeSnippet string issue | CodeNoSnippet

record branch =
  name :: string
  isMain :: bool

text \<open>
  What a handler does to the outside, in order: \<^verbatim>\<open>console.log\<close>, \<^verbatim>\<open>screen.render()\<close>,
  the three requests (the snippet request carries the \<^verbatim>\<open>mySeq\<close> of the render that
  issued it), and the exit.
\<close>

datatype effect =
  Print string
| Draw
| RequestSnippet nat issue
| RequestBranches
| RequestIssues string nat
| Exit

text \<open>
  The variables the handlers close over: \<^verbatim>\<open>issues\<close>, \<^verbatim>\<open>renderSeq\<close>, \<^verbatim>\<open>lastRendered\<close>,
  the list widget's \<^verbatim>\<open>selected\<close> and label, the contents of the detail, code and status
  boxes, and the branch box when it is open.
\<close>

record tui =
  issues :: "issue list"
  selected :: nat
  listLabel :: "nat \<times> string option"
  renderSeq :: nat
  lastRendered :: int
  detail_content :: detail_pane
  code_content :: code_pane
  status_content :: string
  branchBox :: "branch list option"

text \<open>The status line's text, \<^verbatim>\<open>help\<close> in the source (a reserved word here).\<close>

definition helpText :: string where
  "helpText = ''q:quit  '' @ [CHR 0xE2, CHR 0x86, CHR 0x91] @ ''/'' @ [CHR 0xE2, CHR 0x86, CHR 0x93]
     @ '':navigate  enter:view  r:refresh code  b:branches  h:help''"

text \<open>\<^verbatim>\<open>issues[idx]\<close>: \<^verbatim>\<open>undefined\<close> outside the array.\<close>

definition issue_at :: "issue list \<Rightarrow> int \<Rightarrow> issue option" where
  "issue_at xs idx = (if 0 \<le> idx \<and> idx < int (length xs) then Some (xs ! nat idx) else None)"

text \<open>
  \<^verbatim>\<open>render(idx)\<close> up to its \<^verbatim>\<open>await getIssueSource(...)\<close>: the early return on
  \<^verbatim>\<open>idx === lastRendered\<close>, the two assignments, the early return on a missing issue,
  then the detail body, the loading text, a draw and the request.
\<close>

definition render_begin :: "int \<Rightarrow> tui \<Rightarrow> tui \<times> effect list" where
  "render_begin idx s =
     (if idx = lastRendered s then (s, [])
      else
        let s1 = s\<lparr>lastRendered := idx, renderSeq := renderSeq s + 1\<rparr> in
        (case issue_at (issues s1) idx of
           None \<Rightarrow> (s1, [])
         | Some i \<Rightarrow>
             (s1\<lparr>detail_content := DetailOf i, code_content := CodeLoading\<rparr>,
              [Draw, RequestSnippet (renderSeq s1) i])))"

text \<open>\<^verbatim>\<open>snippet && snippet.snippet\<close> decides between the snippet and the placeholder.\<close>

definition code_of_result :: "issue_source option \<Rightarrow> issue \<Rightarrow> code_pane" where
  "code_of_result r i =
     (case r of
        None \<Rightarrow> CodeNoSnippet
      | Some src \<Rightarrow>
          (case snippet src of
             None \<Rightarrow> CodeNoSnippet
           | Some t \<Rightarrow> if t \<noteq> [] then CodeSnippet t i else CodeNoSnippet))"

text \<open>
  \<^verbatim>\<open>render\<close> after the \<^verbatim>\<open>await\<close>, with the \<^verbatim>\<open>mySeq\<close> and \<^verbatim>\<open>issue\<close> it captured and the
  resolver's result: \<^verbatim>\<open>if (mySeq !== renderSeq) return\<close>, else the code pane and a draw.
\<close>

definition render_resume :: "nat \<Rightarrow> issue \<Rightarrow> issue_source option \<Rightarrow> tui \<Rightarrow> tui \<times> effect list" where
  "render_resume mySeq i r s =
     (if mySeq \<noteq> renderSeq s then (s, [])
      else (s\<lparr>code_content := code_of_result r i\<rparr>, [Draw]))"

text \<open>
  The session when the widgets have been built and \<^verbatim>\<open>list.select(0)\<close> has run, before
  the first \<^verbatim>\<open>render\<close>.
\<close>

definition initial_tui :: "issue list \<Rightarrow> string option \<Rightarrow> tui" where
  "initial_tui iss b =
     \<lparr>issues = iss, selected = 0, listLabel = (length iss, b), renderSeq = 0,
      lastRendered = - 1, detail_content = DetailBlank, code_content = CodeBlank,
      status_content = helpText, branchBox = None\<rparr>"

text \<open>
  \<^verbatim>\<open>browseIssuesTui\<close> up to the first \<^verbatim>\<open>await render(0)\<close>. With no issues it prints and
  returns before any widget exists (\<open>None\<close>).
\<close>

definition browseIssuesTui :: "issue list \<Rightarrow> string option \<Rightarrow> tui option \<times> effect list" where
  "browseIssuesTui iss b =
     (if length iss = 0 then (None, [Print ''No issues.''])
      else (case render_begin 0 (initial_tui iss b) of (s1, effs) \<Rightarrow> (Some s1, effs)))"

text \<open>What follows the first \<^verbatim>\<open>await render(0)\<close>: \<^verbatim>\<open>list.focus()\<close> and a draw.\<close>

definition browseIssuesTui_resume :: "tui \<Rightarrow> tui \<times> effect list" where
  "browseIssuesTui_resume s = (s, [Draw])"

text \<open>The handlers, each up to its next \<^verbatim>\<open>await\<close>.\<close>

definition list_on_select :: "int \<Rightarrow> tui \<Rightarrow> tui \<times> effect list" where
  \<comment> \<open>\<^verbatim>\<open>list.on("select", async (_item, idx) => { await render(idx) })\<close>\<close>
  "list_on_select idx s = render_begin idx s"

definition list_on_keypress :: "string \<Rightarrow> nat \<Rightarrow> tui \<Rightarrow> tui \<times> effect list" where
  \<comment> \<open>The widget has set \<^verbatim>\<open>list.selected\<close> (here \<open>sel\<close>) before the handler runs.\<close>
  "list_on_keypress keyname sel s =
     (let s1 = s\<lparr>selected := sel\<rparr> in
      if keyname \<in> set [''up'', ''down'', ''k'', ''j''] then render_begin (int (selected s1)) s1
      else (s1, []))"

definition key_r :: "tui \<Rightarrow> tui \<times> effect list" where
  "key_r s = render_begin (int (selected s)) (s\<lparr>status_content := helpText @ ''  refreshing code...''\<rparr>)"

definition key_q :: "tui \<Rightarrow> tui \<times> effect list" where
  "key_q s = (s, [Exit])"

definition key_help :: "tui \<Rightarrow> tui \<times> effect list" where
  "key_help s = (s\<lparr>status_content := helpText\<rparr>, [Draw])"

definition key_b :: "tui \<Rightarrow> tui \<times> effect list" where
  "key_b s = (s\<lparr>status_content := helpText @ ''  loading branches...''\<rparr>, [Draw, RequestBranches])"

text \<open>\<^verbatim>\<open>getBranches\<close>: \<^verbatim>\<open>res.data.branches || []\<close>, and \<^verbatim>\<open>[]\<close> on any error.\<close>

definition getBranches :: "branch list response \<Rightarrow> branch list" where
  "getBranches r = (case r of Failed \<Rightarrow> [] | Resolved bs \<Rightarrow> bs)"

definition key_b_resume :: "branch list \<Rightarrow> tui \<Rightarrow> tui \<times> effect list" where
  "key_b_resume branches s =
     (if length branches = 0 then (s\<lparr>status_content := helpText @ ''  no branches''\<rparr>, [Draw])
      else (s\<lparr>branchBox := Some branches\<rparr>, [Draw]))"

text \<open>
  \<^verbatim>\<open>getIssues\<close> with the limit the caller passes: the page the server answers is cut
  to \<^verbatim>\<open>limit\<close> issues.
\<close>

definition getIssues :: "issue list response \<Rightarrow> nat \<Rightarrow> issue list response" where
  "getIssues page limit = (case page of Failed \<Rightarrow> Failed | Resolved iss \<Rightarrow> Resolved (take limit iss))"

text \<open>
  \<^verbatim>\<open>box.on("select", ...)\<close> in three parts: up to \<^verbatim>\<open>await getIssues\<close> (reading
  \<^verbatim>\<open>branches[idx].name\<close> outside the array throws), from the answer up to the \<^verbatim>\<open>await\<close>
  inside \<^verbatim>\<open>render(0)\<close>, and what follows \<^verbatim>\<open>await render(0)\<close> or the \<^verbatim>\<open>catch\<close>.
\<close>

definition box_on_select :: "branch list \<Rightarrow> nat \<Rightarrow> tui \<Rightarrow> js_error + tui \<times> effect list" where
  "box_on_select branches idx s =
     (if idx < length branches
      then Inr (s, [RequestIssues (name (branches ! idx)) (length (issues s))])
      else Inl TypeError)"

definition box_on_select_resume :: "string \<Rightarrow> issue list response \<Rightarrow> tui \<Rightarrow> tui \<times> effect list" where
  "box_on_select_resume chosen refreshed s =
     (case refreshed of
        Failed \<Rightarrow> (s\<lparr>status_content := helpText @ ''  branch load failed''\<rparr>, [])
      | Resolved iss \<Rightarrow>
          render_begin 0
            (s\<lparr>issues := iss, selected := 0, listLabel := (length iss, Some chosen)\<rparr>))"

definition box_on_select_finish :: "tui \<Rightarrow> tui \<times> effect list" where
  "box_on_select_finish s = (s\<lparr>branchBox := None, status_content := helpText\<rparr>, [Draw])"

definition key_escape :: "tui \<Rightarrow> tui \<times> effect list" where
  "key_escape s =
     (if branchBox s \<noteq> None then (s\<lparr>branchBox := None, status_content := helpText\<rparr>, [Draw])
      else (s, []))"

text \<open>
  The event loop: every handler runs to its next \<^verbatim>\<open>await\<close> without interleaving, and an
  answer of the server is an event of its own. Any order of events is allowed, so what
  holds of every run holds of every schedule of the real loop.
\<close>

datatype event =
  StartDone
| Select int
| Keypress string nat
| KeyR
| KeyB
| KeyHelp
| KeyEscape
| KeyQ
| BranchesAnswer "branch list response"
| BoxSelect "branch list" nat
| IssuesAnswer string "issue list response" nat
| BoxSelectDone
| SnippetAnswer nat issue "issue_source option"

fun step :: "event \<Rightarrow> tui \<Rightarrow> tui \<times> effect list" where
  "step StartDone s = browseIssuesTui_resume s"
| "step (Select idx) s = list_on_select idx s"
| "step (Keypress k sel) s = list_on_keypress k sel s"
| "step KeyR s = key_r s"
| "step KeyB s = key_b s"
| "step KeyHelp s = key_help s"
| "step KeyEscape s = key_escape s"
| "step KeyQ s = key_q s"
| "step (BranchesAnswer r) s = key_b_resume (getBranches r) s"
| "step (BoxSelect bs idx) s = (case box_on_select bs idx s of Inl err \<Rightarrow> (s, []) | Inr x \<Rightarrow> x)"
| "step (IssuesAnswer chosen page limit) s = box_on_select_resume chosen (getIssues page limit) s"
| "step BoxSelectDone s = box_on_select_finish s"
| "step (SnippetAnswer mySeq i r) s = render_resume mySeq i r s"

fun run :: "event list \<Rightarrow> tui \<Rightarrow> tui" where
  "run [] s = s"
| "run (e # es) s = run es (fst (step e s))"

section \<open>Configuration\<close>

text \<open>
  JavaScript values as far as configuration holds them: what \<^verbatim>\<open>JSON.parse\<close> produces,
  and \<^verbatim>\<open>undefined\<close> for an unset environment variable or flag. An object is the list
  of its own enumerable properties in insertion order.
\<close>

datatype jsval =
  JUndefined
| JNull
| JBool bool
| JNum int
| JStr string
| JArr "jsval list"
| JObj "(string \<times> jsval) list"

type_synonym obj = "(string \<times> jsval) list"

fun truthy :: "jsval \<Rightarrow> bool" where
  "truthy JUndefined = False"
| "truthy JNull = False"
| "truthy (JBool b) = b"
| "truthy (JNum n) = (n \<noteq> 0)"
| "truthy (JStr s) = (s \<noteq> [])"
| "truthy (JArr xs) = True"
| "truthy (JObj ps) = True"

definition get_prop :: "obj \<Rightarrow> string \<Rightarrow> jsval" where
  \<comment> \<open>\<^verbatim>\<open>ob[k]\<close>, \<^verbatim>\<open>ob.k\<close>\<close>
  "get_prop ob k = (case map_of ob k of None \<Rightarrow> JUndefined | Some v \<Rightarrow> v)"

definition set_prop :: "string \<Rightarrow> jsval \<Rightarrow> obj \<Rightarrow> obj" where
  \<comment> \<open>defining an own property: an existing key keeps its place, a new one goes last\<close>
  "set_prop k v ob = AList.update k v ob"

definition spread :: "obj \<Rightarrow> obj \<Rightarrow> obj" where
  \<comment> \<open>\<^verbatim>\<open>{ ...a, ...b }\<close>: the properties of \<open>a\<close>, then those of \<open>b\<close> defined over them;
      \<^verbatim>\<open>{ ...a }\<close> is \<open>spread a []\<close>\<close>
  "spread a b = fold (\<lambda>(k, v). set_prop k v) b a"

definition stringify_members :: "obj \<Rightarrow> obj" where
  \<comment> \<open>the members \<^verbatim>\<open>JSON.stringify\<close> writes: a property whose value is \<^verbatim>\<open>undefined\<close> is left out\<close>
  "stringify_members ob = filter (\<lambda>(k, v). v \<noteq> JUndefined) ob"

text \<open>
  The config file at the resolved path: missing, unreadable as JSON, or holding a JSON
  object. \<^verbatim>\<open>readJsonIfExists\<close> gives \<^verbatim>\<open>{}\<close> for the first two.
\<close>

datatype config_file = Absent | Malformed | Parsed obj

definition readJsonIfExists :: "config_file \<Rightarrow> obj" where
  "readJsonIfExists f = (case f of Parsed c \<Rightarrow> c | Absent \<Rightarrow> [] | Malformed \<Rightarrow> [])"

text \<open>The four \<^verbatim>\<open>SONARQUBE_DASH_*\<close> variables of \<^verbatim>\<open>process.env\<close>.\<close>

record env =
  env_token :: "string option"
  env_project :: "string option"
  env_host :: "string option"
  env_branch :: "string option"

definition of_env :: "string option \<Rightarrow> jsval" where
  "of_env v = (case v of None \<Rightarrow> JUndefined | Some s \<Rightarrow> JStr s)"

text \<open>
  \<^verbatim>\<open>loadConfig\<close>: the file's object and \<^verbatim>\<open>envConfig\<close>, which has all four keys, an unset
  variable as \<^verbatim>\<open>undefined\<close>.
\<close>

definition envConfig :: "env \<Rightarrow> obj" where
  "envConfig e =
     [(''token'', of_env (env_token e)), (''project'', of_env (env_project e)),
      (''host'', of_env (env_host e)), (''branch'', of_env (env_branch e))]"

definition loadConfig :: "config_file \<Rightarrow> env \<Rightarrow> obj \<times> obj" where
  "loadConfig f e = (readJsonIfExists f, envConfig e)"

text \<open>The flags a command parses: a flag not given is \<^verbatim>\<open>undefined\<close>.\<close>

record opts =
  opt_token :: "string option"
  opt_project :: "string option"
  opt_branch :: "string option"
  opt_host :: "string option"
  opt_json :: "bool option"

definition assign_if :: "string \<Rightarrow> string option \<Rightarrow> obj \<Rightarrow> obj" where
  \<comment> \<open>\<^verbatim>\<open>if (opts.k) merged.k = opts.k\<close>\<close>
  "assign_if k v ob =
     (case v of None \<Rightarrow> ob | Some s \<Rightarrow> if s \<noteq> [] then set_prop k (JStr s) ob else ob)"

definition default_host :: string where
  "default_host = ''https://sonarqube.example.com''"

definition envFiltered :: "obj \<Rightarrow> obj" where
  \<comment> \<open>the entries of \<^verbatim>\<open>envConfig\<close> with \<^verbatim>\<open>v !== undefined && v !== ""\<close>\<close>
  "envFiltered ec = filter (\<lambda>(k, v). v \<noteq> JUndefined \<and> v \<noteq> JStr []) ec"

definition buildRuntimeConfig :: "config_file \<Rightarrow> env \<Rightarrow> opts \<Rightarrow> obj" where
  "buildRuntimeConfig f e opts =
     (let (configFromFile, ec) = loadConfig f e;
          merged = spread configFromFile (envFiltered ec);
          merged = assign_if ''token'' (opt_token opts) merged;
          merged = assign_if ''project'' (opt_project opts) merged;
          merged = assign_if ''branch'' (opt_branch opts) merged;
          merged = assign_if ''host'' (opt_host opts) merged;
          merged = set_prop ''json''
                     (case opt_json opts of None \<Rightarrow> JUndefined | Some b \<Rightarrow> JBool b) merged
      in if \<not> truthy (get_prop merged ''host'') then set_prop ''host'' (JStr default_host) merged
         else merged)"

text \<open>
  The precedence as the specification words it, to compare \<^verbatim>\<open>buildRuntimeConfig\<close> with: a
  flag that is given and not empty, else an environment variable that is set and not
  empty, else what the file holds.
\<close>

definition layered :: "string option \<Rightarrow> string option \<Rightarrow> jsval \<Rightarrow> jsval" where
  "layered flag var from_file =
     (case flag of
        Some c \<Rightarrow> if c \<noteq> [] then JStr c else
          (case var of Some b \<Rightarrow> if b \<noteq> [] then JStr b else from_file | None \<Rightarrow> from_file)
      | None \<Rightarrow>
          (case var of Some b \<Rightarrow> if b \<noteq> [] then JStr b else from_file | None \<Rightarrow> from_file))"

text \<open>What a command writes, and the exit code when it ends the process itself.\<close>

datatype written =
  Stdout string
| StdoutValue jsval
| StdoutJson obj
| Stderr string

definition mask_token :: "obj \<Rightarrow> obj" where
  \<comment> \<open>\<^verbatim>\<open>if (x.token) x.token = "***"\<close>\<close>
  "mask_token ob = (if truthy (get_prop ob ''token'') then set_prop ''token'' (JStr ''***'') ob else ob)"

definition print_config :: "config_file \<Rightarrow> env \<Rightarrow> written list" where
  \<comment> \<open>the \<^verbatim>\<open>print-config\<close> command: \<^verbatim>\<open>{ ...configFromFile, ...envConfig }\<close>, unfiltered\<close>
  "print_config f e =
     (let (configFromFile, ec) = loadConfig f e;
          merged = spread configFromFile ec
      in [StdoutJson (mask_token merged)])"

definition metrics_print_config :: "config_file \<Rightarrow> env \<Rightarrow> opts \<Rightarrow> written list" where
  \<comment> \<open>\<^verbatim>\<open>runMetrics\<close> under \<^verbatim>\<open>--print-config\<close>\<close>
  "metrics_print_config f e opts =
     (let cfg = buildRuntimeConfig f e opts;
          out = spread cfg []
      in [StdoutJson (mask_token out)])"

text \<open>
  The actions of \<^verbatim>\<open>config get\<close> and \<^verbatim>\<open>config set\<close> declare one argument and are called with
  that argument, the options and the command, so their \<^verbatim>\<open>cmd\<close> is the command.
  \<^verbatim>\<open>config show\<close> declares no argument and is called with the options and the command
  only, while its action is written \<^verbatim>\<open>(_args, _opts, cmd)\<close>: its \<^verbatim>\<open>cmd\<close> is \<^verbatim>\<open>undefined\<close>, and
  the first statement, which reads \<^verbatim>\<open>cmd.parent\<close>, throws. \<open>config_show_action\<close> is the
  action for either value of \<^verbatim>\<open>cmd\<close>, \<open>config_show\<close> the command as it is called.
\<close>

definition config_show_action :: "unit option \<Rightarrow> config_file \<Rightarrow> env \<Rightarrow> js_error + written list" where
  "config_show_action cmd f e =
     (case cmd of
        None \<Rightarrow> Inl TypeError
      | Some c \<Rightarrow>
          (let (configFromFile, ec) = loadConfig f e;
               out = spread configFromFile []
           in Inr [StdoutJson (mask_token out)]))"

definition config_show :: "config_file \<Rightarrow> env \<Rightarrow> js_error + written list" where
  "config_show f e = config_show_action None f e"

definition config_get :: "string \<Rightarrow> config_file \<Rightarrow> env \<Rightarrow> written list \<times> nat option" where
  "config_get k f e =
     (let (configFromFile, ec) = loadConfig f e in
      if map_of configFromFile k \<noteq> None
      then (if k = ''token'' then ([Stdout ''***''], None)
            else ([StdoutValue (get_prop configFromFile k)], None))
      else ([], Some 1))"

text \<open>
  \<^verbatim>\<open>config set\<close>. A pair is cut at its first \<^verbatim>\<open>=\<close>; one without \<^verbatim>\<open>=\<close> ends the process
  with code 1 before anything is written. \<^verbatim>\<open>updates[key] = value\<close> on the plain object
  \<^verbatim>\<open>updates\<close> defines a property, except for the key \<^verbatim>\<open>__proto__\<close>, whose setter ignores
  a string.
\<close>

definition parse_pair :: "string \<Rightarrow> (string \<times> string) option" where
  "parse_pair pair =
     (if CHR ''='' \<notin> set pair then None
      else Some (takeWhile (\<lambda>c. c \<noteq> CHR ''='') pair, tl (dropWhile (\<lambda>c. c \<noteq> CHR ''='') pair)))"

definition assign_update :: "string \<Rightarrow> string \<Rightarrow> obj \<Rightarrow> obj" where
  "assign_update k v updates = (if k = ''__proto__'' then updates else set_prop k (JStr v) updates)"

fun collect_updates :: "string list \<Rightarrow> obj \<Rightarrow> string + obj" where
  "collect_updates [] updates = Inr updates"
| "collect_updates (pair # pairs) updates =
     (case parse_pair pair of
        None \<Rightarrow> Inl pair
      | Some (k, v) \<Rightarrow> collect_updates pairs (assign_update k v updates))"

text \<open>
  \<^verbatim>\<open>writeConfig(data, explicitPath)\<close>: the file's object when it parses, \<^verbatim>\<open>{}\<close> otherwise,
  with \<open>data\<close> spread over it, written back. The file afterwards and the returned
  \<^verbatim>\<open>data\<close>.
\<close>

definition writeConfig :: "obj \<Rightarrow> config_file \<Rightarrow> config_file \<times> obj" where
  "writeConfig data f =
     (let current = (case f of Parsed c \<Rightarrow> c | Absent \<Rightarrow> [] | Malformed \<Rightarrow> []);
          merged = spread current data
      in (Parsed merged, merged))"

definition config_set :: "string \<Rightarrow> string list \<Rightarrow> config_file \<Rightarrow> config_file \<times> written list \<times> nat option" where
  "config_set path pairs f =
     (case collect_updates pairs [] of
        Inl pair \<Rightarrow> (f, [Stderr (''Invalid format (expected key=value): '' @ pair)], Some 1)
      | Inr updates \<Rightarrow>
          (let (f', merged) = writeConfig updates f
           in (f', [Stdout (''Updated '' @ path)], None)))"

section \<open>Concrete inputs\<close>

text \<open>Inputs the theorems below are evaluated at.\<close>

definition example_issue :: "string \<Rightarrow> string option \<Rightarrow> int option \<Rightarrow> textRange option \<Rightarrow> issue" where
  "example_issue k c l r =
     \<lparr>key = k, severity = ''MAJOR'', type = ''BUG'', status = Some ''OPEN'',
      message = Some ''Remove this unused variable'', component = c, line = l, textRange = r\<rparr>"

definition issue_a :: issue where
  "issue_a = example_issue ''AX-1'' (Some ''proj:src/a.js'') (Some 2) None"

definition issue_b :: issue where
  "issue_b = example_issue ''AX-2'' (Some ''proj:src/b.js'') (Some 7) None"

definition issue_range :: issue where
  \<comment> \<open>an issue with no \<^verbatim>\<open>line\<close>, only a \<^verbatim>\<open>textRange\<close>\<close>
  "issue_range =
     example_issue ''AX-7'' (Some ''proj:src/a.js'') None (Some \<lparr>startLine = 3, endLine = 3\<rparr>)"

definition issue_dev :: issue where
  "issue_dev = example_issue ''AX-9'' (Some ''proj:src/dev.js'') (Some 1) None"

definition example_file :: string where
  "example_file = ''ab'' @ [CR, LF] @ ''cd'' @ [LF] @ ''ef''"

definition srv_text :: "string \<Rightarrow> server" where
  "srv_text c = \<lparr>sources_raw = (\<lambda>k. Resolved (Text c)), sources_show = (\<lambda>k. Failed)\<rparr>"

definition srv_fallback :: "source_line list \<Rightarrow> server" where
  "srv_fallback ls =
     \<lparr>sources_raw = (\<lambda>k. Failed), sources_show = (\<lambda>k. Resolved (Sources ls))\<rparr>"

definition srv_down :: server where
  "srv_down = \<lparr>sources_raw = (\<lambda>k. Failed), sources_show = (\<lambda>k. Failed)\<rparr>"

definition env_unset :: env where
  "env_unset = \<lparr>env_token = None, env_project = None, env_host = None, env_branch = None\<rparr>"

definition no_flags :: opts where
  "no_flags = \<lparr>opt_token = None, opt_project = None, opt_branch = None, opt_host = None,
                opt_json = None\<rparr>"

definition file_a :: config_file where
  "file_a = Parsed [(''token'', JStr ''a''), (''project'', JStr ''proj'')]"

text \<open>
  Two issues listed, the first rendered at the start (request 1), then the selection moved
  down to the second (request 2), no answer yet.
\<close>

definition tui_after_down :: tui where
  "tui_after_down =
     \<lparr>issues = [issue_a, issue_b], selected = 0, listLabel = (2, None), renderSeq = 2,
      lastRendered = 1, detail_content = DetailOf issue_b, code_content = CodeLoading,
      status_content = helpText, branchBox = None\<rparr>"

section \<open>Facts about the snippet resolver\<close>

lemma snippetLines_upto:
  "snippetLines lines idx ln e = map (snippet_line lines idx) [ln..e]"
proof (induction lines idx ln e rule: snippetLines.induct)
  case (1 lines idx ln e)
  show ?case
  proof (cases "ln \<le> e")
    case True
    then have "[ln..e] = ln # [ln + 1..e]" by (simp add: upto_rec1)
    with True 1 show ?thesis by (subst snippetLines.simps) simp
  next
    case False
    then show ?thesis by (subst snippetLines.simps) simp
  qed
qed

lemma length_snippetLines: "length (snippetLines lines idx ln e) = nat (e - ln + 1)"
  by (simp add: snippetLines_upto)

lemma nth_snippetLines:
  "s \<le> ln \<Longrightarrow> ln \<le> e \<Longrightarrow>
     snippetLines lines idx s e ! nat (ln - s) = snippet_line lines idx ln"
  by (simp add: snippetLines_upto)

lemma cons_first_nonempty: "cons_first c ls \<noteq> []"
  by (cases ls) simp_all

lemma split_lines_nonempty: "split_lines s \<noteq> []"
  by (induction s rule: split_lines.induct) (simp_all add: cons_first_nonempty)

lemma snippet_line_in_range:
  "1 \<le> ln \<Longrightarrow> ln \<le> int (length lines) \<Longrightarrow>
     snippet_line lines idx ln =
       (if ln = idx then ''>'' else '' '') @ '' '' @ padStart 4 (toString ln) @ '' | ''
         @ lines ! nat (ln - 1)"
  by (simp add: snippet_line_def line_text_def nat_diff_distrib)

lemma hd_snippet_line: "(hd (snippet_line lines idx ln) = CHR ''>'') = (ln = idx)"
  by (simp add: snippet_line_def)

text \<open>The resolver on retrieved text with a focus line, for any radius.\<close>

lemma getIssueSource_window:
  assumes "component i = Some k" "k \<noteq> []"
      and "fetch_content srv k = Inr (Some (Text c))" "c \<noteq> []"
      and "focusLine i = Some F" "F \<noteq> 0"
  shows "getIssueSource srv (Some i) n =
           Some (Window c
                  (join_nl (snippetLines (split_lines c) (max 1 F) (max 1 (max 1 F - n))
                      (min (int (length (split_lines c))) (max 1 F + n))))
                  (max 1 (max 1 F - n)) (min (int (length (split_lines c))) (max 1 F + n))
                  (max 1 F))"
  using assms
  by (simp add: getIssueSource_def getIssueSource_try_def slice_content_def Let_def)

lemma getIssueSource_no_focus:
  assumes "component i = Some k" "k \<noteq> []"
      and "fetch_content srv k = Inr (Some (Text c))" "c \<noteq> []"
      and "focusLine i = None \<or> focusLine i = Some 0"
  shows "getIssueSource srv (Some i) n = Some (NoWindow c)"
  using assms
  by (auto simp add: getIssueSource_def getIssueSource_try_def slice_content_def Let_def)

lemma content_getIssueSource:
  assumes "component i = Some k" "k \<noteq> []"
      and "fetch_content srv k = Inr (Some (Text c))" "c \<noteq> []"
  shows "\<exists>r. getIssueSource srv (Some i) n = Some r \<and> content r = c"
  using assms
  by (simp add: getIssueSource_def getIssueSource_try_def slice_content_def Let_def
      split: option.split)

lemma fetch_content_fallback:
  "sources_raw srv k = Failed \<Longrightarrow> sources_show srv k = Resolved (Sources ls) \<Longrightarrow>
     fetch_content srv k = Inr (Some (Text (join_nl (map code ls))))"
  by (simp add: fetch_content_def)

lemma getIssueSource_caught:
  "getIssueSource_try srv i n = Inl err \<Longrightarrow> getIssueSource srv (Some i) n = None"
  by (simp add: getIssueSource_def)

lemma split_example_file: "split_lines example_file = [''ab'', ''cd'', ''ef'']"
  by code_simp

lemma example_file_nonempty: "example_file \<noteq> []"
  by (simp add: example_file_def)

lemma fetch_srv_text: "fetch_content (srv_text c) k = Inr (Some (Text c))"
  by (simp add: fetch_content_def srv_text_def)

text \<open>
  The scenario of an issue on line 42 of a file of 100 lines: the window is lines 37 to
  47 and the marker is on line 42.
\<close>

lemma window_line_42_of_100:
  "getIssueSource (srv_text (join_nl (replicate 100 ''x'')))
     (Some (example_issue ''AX-3'' (Some ''proj:src/a.js'') (Some 42) None)) defaultContextLines =
   Some (Window (join_nl (replicate 100 ''x''))
     (join_nl [''    37 | x'', ''    38 | x'', ''    39 | x'', ''    40 | x'', ''    41 | x'',
               ''>   42 | x'', ''    43 | x'', ''    44 | x'', ''    45 | x'', ''    46 | x'',
               ''    47 | x'']) 37 47 42)"
  by code_simp



text \<open>Where the focus value comes from: the \<^verbatim>\<open>line\<close>, or the range's start line without one.\<close>

lemma focusLine_from_line: "line i = Some R \<Longrightarrow> R \<noteq> 0 \<Longrightarrow> focusLine i = Some R"
  by (simp add: focusLine_def)

lemma focusLine_from_range:
  "line i = None \<or> line i = Some 0 \<Longrightarrow> textRange i = Some tr \<Longrightarrow>
     focusLine i = Some (startLine tr)"
  by (auto simp add: focusLine_def)

lemma focusLine_absent:
  "line i = None \<or> line i = Some 0 \<Longrightarrow> textRange i = None \<Longrightarrow> focusLine i = None"
  by (auto simp add: focusLine_def)

section \<open>Claims about the snippet resolver\<close>

text \<open>
  C3. Snippet windowing. For retrieved, non-empty content of \<open>L\<close> lines and an issue that
  carries a focus value \<open>R\<close>, which is its \<^verbatim>\<open>line\<close> when that is present and not 0 and
  else its \<^verbatim>\<open>textRange.startLine\<close> (not 0 either), let \<open>F\<close> be the focus line the resolver
  works with and returns: the value itself when it is a line number, and 1 when it is
  negative. With radius 5 the resolver returns the window from \<open>max 1 (F - 5)\<close> to
  \<open>min L (F + 5)\<close> inclusive: one rendered line per line of the window, each carrying its
  1-based number and the text of that line of the file, and the rendered line starts with
  \<^verbatim>\<open>>\<close> exactly on the focus line. For \<open>F = 1\<close> the window starts at 1 and for \<open>F = L\<close>
  it ends at \<open>L\<close>.
\<close>

theorem snippet_window:
  assumes comp: "component i = Some k" "k \<noteq> []"
      and fetched: "fetch_content srv k = Inr (Some (Text c))" "c \<noteq> []"
      and focus: "line i = Some R
                  \<or> ((line i = None \<or> line i = Some 0) \<and> textRange i = Some tr
                      \<and> startLine tr = R)"
                 "R \<noteq> 0" "F = max 1 R"
      and L: "L = int (length (split_lines c))"
      and s: "s = max 1 (F - 5)" and e: "e = min L (F + 5)"
  shows "getIssueSource srv (Some i) defaultContextLines =
           Some (Window c (join_nl (snippetLines (split_lines c) F s e)) s e F)
         \<and> length (snippetLines (split_lines c) F s e) = nat (e - s + 1)
         \<and> (\<forall>ln. s \<le> ln \<and> ln \<le> e \<longrightarrow>
               snippetLines (split_lines c) F s e ! nat (ln - s) =
                 (if ln = F then ''>'' else '' '') @ '' '' @ padStart 4 (toString ln) @ '' | ''
                   @ split_lines c ! nat (ln - 1))
         \<and> (\<forall>ln. s \<le> ln \<and> ln \<le> e \<longrightarrow>
               (hd (snippetLines (split_lines c) F s e ! nat (ln - s)) = CHR ''>'') = (ln = F))
         \<and> (1 \<le> R \<longrightarrow> F = R)
         \<and> 1 \<le> s \<and> e \<le> L \<and> (F = 1 \<longrightarrow> s = 1) \<and> (F = L \<longrightarrow> e = L)"
proof -
  have fl: "focusLine i = Some R"
    using focus(1)
  proof
    assume "line i = Some R"
    then show ?thesis using focus(2) by (rule focusLine_from_line)
  next
    assume a: "(line i = None \<or> line i = Some 0) \<and> textRange i = Some tr \<and> startLine tr = R"
    then have "focusLine i = Some (startLine tr)" by (intro focusLine_from_range) simp_all
    with a show ?thesis by simp
  qed
  have "getIssueSource srv (Some i) defaultContextLines =
           Some (Window c (join_nl (snippetLines (split_lines c) F s e)) s e F)"
    using getIssueSource_window [OF comp fetched fl focus(2), of defaultContextLines]
    by (simp add: focus(3) defaultContextLines_def s e L)
  moreover have "length (snippetLines (split_lines c) F s e) = nat (e - s + 1)"
    by (rule length_snippetLines)
  moreover have "snippetLines (split_lines c) F s e ! nat (ln - s) =
                 (if ln = F then ''>'' else '' '') @ '' '' @ padStart 4 (toString ln) @ '' | ''
                   @ split_lines c ! nat (ln - 1)" if "s \<le> ln" "ln \<le> e" for ln
  proof -
    have "1 \<le> ln" using that(1) s by simp
    moreover have "ln \<le> int (length (split_lines c))" using that(2) e L by simp
    ultimately show ?thesis
      using that by (simp add: nth_snippetLines snippet_line_in_range)
  qed
  moreover have "(hd (snippetLines (split_lines c) F s e ! nat (ln - s)) = CHR ''>'') = (ln = F)"
    if "s \<le> ln" "ln \<le> e" for ln
    using that by (simp add: nth_snippetLines hd_snippet_line)
  moreover have "1 \<le> R \<longrightarrow> F = R" "1 \<le> s" "e \<le> L" "F = 1 \<longrightarrow> s = 1" "F = L \<longrightarrow> e = L"
    using s e focus(3) by simp_all
  ultimately show ?thesis by blast
qed

text \<open>
  The witness: on the file of three lines, an issue with \<^verbatim>\<open>line\<close> 2 and no range has its
  marker on line 2, and an issue with no \<^verbatim>\<open>line\<close> and a range starting at line 3 has it on
  line 3.
\<close>

theorem snippet_window_witness:
  "getIssueSource (srv_text example_file) (Some issue_a) defaultContextLines =
     Some (Window example_file (join_nl [''     1 | ab'', ''>    2 | cd'', ''     3 | ef'']) 1 3 2)
   \<and> length (snippetLines (split_lines example_file) 2 1 3) = 3
   \<and> line issue_range = None
   \<and> getIssueSource (srv_text example_file) (Some issue_range) defaultContextLines =
     Some (Window example_file (join_nl [''     1 | ab'', ''     2 | cd'', ''>    3 | ef'']) 1 3 3)"
proof -
  have sn: "snippetLines [''ab'', ''cd'', ''ef''] 2 1 3 =
      [''     1 | ab'', ''>    2 | cd'', ''     3 | ef'']"
    by code_simp
  have sr: "snippetLines [''ab'', ''cd'', ''ef''] 3 1 3 =
      [''     1 | ab'', ''     2 | cd'', ''>    3 | ef'']"
    by code_simp
  have k: "''proj:src/a.js'' \<noteq> []" by simp
  have a1: "component issue_a = Some ''proj:src/a.js''"
    by (simp add: issue_a_def example_issue_def)
  have a2: "line issue_a = Some 2
      \<or> ((line issue_a = None \<or> line issue_a = Some 0)
          \<and> textRange issue_a = Some \<lparr>startLine = 2, endLine = 2\<rparr>
          \<and> startLine \<lparr>startLine = 2, endLine = 2\<rparr> = 2)"
    by (simp add: issue_a_def example_issue_def)
  have r1: "component issue_range = Some ''proj:src/a.js''"
    by (simp add: issue_range_def example_issue_def)
  have r0: "line issue_range = None"
    by (simp add: issue_range_def example_issue_def)
  have r2: "line issue_range = Some 3
      \<or> ((line issue_range = None \<or> line issue_range = Some 0)
          \<and> textRange issue_range = Some \<lparr>startLine = 3, endLine = 3\<rparr>
          \<and> startLine \<lparr>startLine = 3, endLine = 3\<rparr> = 3)"
    by (simp add: issue_range_def example_issue_def)
  have n2: "(2::int) \<noteq> 0" and m2: "(2::int) = max 1 2"
    and n3: "(3::int) \<noteq> 0" and m3: "(3::int) = max 1 3"
    by simp_all
  show ?thesis
    using snippet_window [OF a1 k fetch_srv_text example_file_nonempty a2 n2 m2 refl refl refl]
          snippet_window [OF r1 k fetch_srv_text example_file_nonempty r2 n3 m3 refl refl refl]
          r0
    by (simp add: split_example_file sn sr)
qed

text \<open>
  C4, as the claim states it, fails: the primary endpoint fails, the fallback returns one
  per-line record (a file of one empty line), and the resolver returns \<^verbatim>\<open>null\<close>.
\<close>

theorem fallback_blank_counterexample:
  "component issue_a = Some ''proj:src/a.js''
   \<and> sources_raw (srv_fallback [\<lparr>code = ''''\<rparr>]) ''proj:src/a.js'' = Failed
   \<and> sources_show (srv_fallback [\<lparr>code = ''''\<rparr>]) ''proj:src/a.js'' =
        Resolved (Sources [\<lparr>code = ''''\<rparr>])
   \<and> getIssueSource (srv_fallback [\<lparr>code = ''''\<rparr>]) (Some issue_a) defaultContextLines = None"
  by (simp add: getIssueSource_def getIssueSource_try_def slice_content_def fetch_content_def
      srv_fallback_def issue_a_def example_issue_def)

text \<open>
  C4, amended. For an issue with a non-empty component whose primary request fails: if
  the fallback returns an array of per-line records and their code fields joined by
  newlines are a non-empty text, the resolver returns a result whose content is that
  text; if the joined text is empty it returns \<^verbatim>\<open>null\<close>; if the fallback request fails
  too, the error is caught and the resolver returns \<^verbatim>\<open>null\<close>.
\<close>

theorem fallback_path:
  assumes comp: "component i = Some k" "k \<noteq> []"
      and raw: "sources_raw srv k = Failed"
  shows "(sources_show srv k = Resolved (Sources ls) \<and> join_nl (map code ls) \<noteq> [] \<longrightarrow>
            (\<exists>r. getIssueSource srv (Some i) n = Some r \<and> content r = join_nl (map code ls)))
       \<and> (sources_show srv k = Resolved (Sources ls) \<and> join_nl (map code ls) = [] \<longrightarrow>
            getIssueSource srv (Some i) n = None)
       \<and> (sources_show srv k = Failed \<longrightarrow>
            getIssueSource_try srv i n = Inl RequestError \<and> getIssueSource srv (Some i) n = None)"
proof (intro conjI impI)
  assume a: "sources_show srv k = Resolved (Sources ls) \<and> join_nl (map code ls) \<noteq> []"
  then have "fetch_content srv k = Inr (Some (Text (join_nl (map code ls))))"
    using raw by (simp add: fetch_content_fallback)
  with comp a show "\<exists>r. getIssueSource srv (Some i) n = Some r \<and> content r = join_nl (map code ls)"
    by (simp add: content_getIssueSource)
next
  assume "sources_show srv k = Resolved (Sources ls) \<and> join_nl (map code ls) = []"
  then show "getIssueSource srv (Some i) n = None"
    using comp raw
    by (simp add: getIssueSource_def getIssueSource_try_def fetch_content_def slice_content_def)
next
  assume f: "sources_show srv k = Failed"
  show "getIssueSource_try srv i n = Inl RequestError"
    using comp raw f by (simp add: getIssueSource_try_def fetch_content_def)
  then show "getIssueSource srv (Some i) n = None"
    by (rule getIssueSource_caught)
qed

theorem fallback_path_witness:
  "(\<exists>r. getIssueSource (srv_fallback [\<lparr>code = ''ab''\<rparr>, \<lparr>code = ''cd''\<rparr>])
          (Some issue_a) defaultContextLines = Some r
        \<and> content r = join_nl [''ab'', ''cd''])
   \<and> getIssueSource (srv_fallback []) (Some issue_a) defaultContextLines = None
   \<and> getIssueSource srv_down (Some issue_a) defaultContextLines = None"
proof -
  have h1: "component issue_a = Some ''proj:src/a.js''" and h2: "''proj:src/a.js'' \<noteq> []"
    by (simp_all add: issue_a_def example_issue_def)
  have r1: "sources_raw (srv_fallback ls) ''proj:src/a.js'' = Failed" for ls
    by (simp add: srv_fallback_def)
  have r2: "sources_raw srv_down ''proj:src/a.js'' = Failed"
    by (simp add: srv_down_def)
  show ?thesis
    using fallback_path [OF h1 h2 r1, of "[\<lparr>code = ''ab''\<rparr>, \<lparr>code = ''cd''\<rparr>]"
            "[\<lparr>code = ''ab''\<rparr>, \<lparr>code = ''cd''\<rparr>]" defaultContextLines]
          fallback_path [OF h1 h2 r1, of "[]" "[]" defaultContextLines]
          fallback_path [OF h1 h2 r2, of "[]" defaultContextLines]
    by (simp add: srv_fallback_def srv_down_def)
qed

text \<open>
  C5, as the claim states it, fails: on a file of three lines, a focus line of 20 is not
  clamped to line 1. The result keeps focus 20, and its window from 15 to 3 is empty.
\<close>

theorem focus_beyond_file_counterexample:
  "focusLine (example_issue ''AX-4'' (Some ''proj:src/a.js'') (Some 20) None) = Some 20
   \<and> int (length (split_lines example_file)) = 3
   \<and> getIssueSource (srv_text example_file)
        (Some (example_issue ''AX-4'' (Some ''proj:src/a.js'') (Some 20) None))
        defaultContextLines = Some (Window example_file [] 15 3 20)"
proof -
  have "snippetLines [''ab'', ''cd'', ''ef''] 20 15 3 = []"
    by (simp add: snippetLines.simps)
  then show ?thesis
    by (simp add: getIssueSource_def getIssueSource_try_def slice_content_def fetch_srv_text
        example_file_nonempty split_example_file focusLine_def example_issue_def
        defaultContextLines_def)
qed

text \<open>
  C5, amended. Line numbers are 1-based and no focus value makes the resolver fail on
  retrieved text. A negative focus value is clamped to line 1 (window from 1 to
  \<open>min L 6\<close>). A \<^verbatim>\<open>line\<close> of 0 counts as absent: \<^verbatim>\<open>textRange.startLine\<close> is used in its
  place, and with no focus value, or the value 0, the result is the content with no
  window. A focus value above the line count \<open>L\<close> is not clamped: it stays the focus and
  the window runs from \<open>max 1 (F - 5)\<close> to \<open>L\<close>, which is empty when \<open>F - 5 > L\<close>.
\<close>

theorem focus_out_of_range:
  assumes comp: "component i = Some k" "k \<noteq> []"
      and fetched: "fetch_content srv k = Inr (Some (Text c))" "c \<noteq> []"
      and L: "L = int (length (split_lines c))"
  shows "(focusLine i = Some F \<and> F < 0 \<longrightarrow>
            getIssueSource srv (Some i) defaultContextLines =
              Some (Window c (join_nl (snippetLines (split_lines c) 1 1 (min L 6))) 1 (min L 6) 1))
       \<and> (focusLine i = Some F \<and> L < F \<longrightarrow>
            getIssueSource srv (Some i) defaultContextLines =
              Some (Window c (join_nl (snippetLines (split_lines c) F (max 1 (F - 5)) L))
                     (max 1 (F - 5)) L F)
            \<and> (L < F - 5 \<longrightarrow> snippetLines (split_lines c) F (max 1 (F - 5)) L = []))
       \<and> (focusLine i = None \<or> focusLine i = Some 0 \<longrightarrow>
            getIssueSource srv (Some i) defaultContextLines = Some (NoWindow c))
       \<and> (line i = Some 0 \<longrightarrow> focusLine i = map_option startLine (textRange i))"
proof (intro conjI impI)
  assume a: "focusLine i = Some F \<and> F < 0"
  then have "F \<noteq> 0" "max 1 F = 1" by simp_all
  then show "getIssueSource srv (Some i) defaultContextLines =
      Some (Window c (join_nl (snippetLines (split_lines c) 1 1 (min L 6))) 1 (min L 6) 1)"
    using getIssueSource_window [OF comp fetched, of F defaultContextLines] a
    by (simp add: defaultContextLines_def L)
next
  assume a: "focusLine i = Some F \<and> L < F"
  have "1 \<le> L" using split_lines_nonempty [of c] L by (cases "split_lines c") simp_all
  with a have "F \<noteq> 0" "max 1 F = F" "min L (F + 5) = L" by simp_all
  then show "getIssueSource srv (Some i) defaultContextLines =
      Some (Window c (join_nl (snippetLines (split_lines c) F (max 1 (F - 5)) L))
             (max 1 (F - 5)) L F)"
    using getIssueSource_window [OF comp fetched, of F defaultContextLines] a
    by (simp add: defaultContextLines_def L)
next
  assume "focusLine i = Some F \<and> L < F" and "L < F - 5"
  then show "snippetLines (split_lines c) F (max 1 (F - 5)) L = []"
    by (simp add: snippetLines_upto)
next
  assume "focusLine i = None \<or> focusLine i = Some 0"
  then show "getIssueSource srv (Some i) defaultContextLines = Some (NoWindow c)"
    by (rule getIssueSource_no_focus [OF comp fetched])
next
  assume "line i = Some 0"
  then show "focusLine i = map_option startLine (textRange i)"
    by (simp add: focusLine_def)
qed

theorem focus_out_of_range_witness:
  "getIssueSource (srv_text example_file)
     (Some (example_issue ''AX-5'' (Some ''proj:src/a.js'') (Some (- 3)) None))
     defaultContextLines =
     Some (Window example_file (join_nl [''>    1 | ab'', ''     2 | cd'', ''     3 | ef'']) 1 3 1)
   \<and> getIssueSource (srv_text example_file)
        (Some (example_issue ''AX-4'' (Some ''proj:src/a.js'') (Some 20) None))
        defaultContextLines = Some (Window example_file [] 15 3 20)
   \<and> getIssueSource (srv_text example_file)
        (Some (example_issue ''AX-6'' (Some ''proj:src/a.js'') (Some 0) None))
        defaultContextLines = Some (NoWindow example_file)"
proof -
  let ?neg = "example_issue ''AX-5'' (Some ''proj:src/a.js'') (Some (- 3)) None"
  let ?big = "example_issue ''AX-4'' (Some ''proj:src/a.js'') (Some 20) None"
  let ?zero = "example_issue ''AX-6'' (Some ''proj:src/a.js'') (Some 0) None"
  have c: "component ?neg = Some ''proj:src/a.js''" "component ?big = Some ''proj:src/a.js''"
    "component ?zero = Some ''proj:src/a.js''"
    by (simp_all add: example_issue_def)
  have k: "''proj:src/a.js'' \<noteq> []" by simp
  have f: "focusLine ?neg = Some (- 3)" "focusLine ?big = Some 20" "focusLine ?zero = None"
    by (simp_all add: focusLine_def example_issue_def)
  have sn: "snippetLines [''ab'', ''cd'', ''ef''] 1 1 3 =
      [''>    1 | ab'', ''     2 | cd'', ''     3 | ef'']"
    by code_simp
  have sb: "snippetLines [''ab'', ''cd'', ''ef''] 20 15 3 = []"
    by (simp add: snippetLines.simps)
  show ?thesis
    using focus_out_of_range [OF c(1) k fetch_srv_text example_file_nonempty refl, of "- 3"]
          focus_out_of_range [OF c(2) k fetch_srv_text example_file_nonempty refl, of 20]
          focus_out_of_range [OF c(3) k fetch_srv_text example_file_nonempty refl, of 0]
    by (simp add: f split_example_file sn sb)
qed


section \<open>Facts about the browser\<close>

lemma render_begin_same: "render_begin (lastRendered s) s = (s, [])"
  by (simp add: render_begin_def)

lemma render_begin_other:
  "idx \<noteq> lastRendered s \<Longrightarrow> issue_at (issues s) idx = Some i \<Longrightarrow>
     render_begin idx s =
       (s\<lparr>lastRendered := idx, renderSeq := renderSeq s + 1, detail_content := DetailOf i,
          code_content := CodeLoading\<rparr>,
        [Draw, RequestSnippet (renderSeq s + 1) i])"
  by (simp add: render_begin_def Let_def)

lemma renderSeq_render_begin: "renderSeq s \<le> renderSeq (fst (render_begin idx s))"
  by (simp add: render_begin_def Let_def split: option.split)

lemma render_begin_request:
  assumes "render_begin idx s = (s', [Draw, RequestSnippet k i])"
  shows "k = renderSeq s + 1 \<and> renderSeq s' = k"
  using assms by (auto simp add: render_begin_def Let_def split: if_splits option.splits)

text \<open>The sequence counter never goes down, whatever happens.\<close>

lemma renderSeq_step: "renderSeq s \<le> renderSeq (fst (step e s))"
proof (cases e)
  case StartDone
  then show ?thesis by (simp add: browseIssuesTui_resume_def)
next
  case (Select idx)
  then show ?thesis by (simp add: list_on_select_def renderSeq_render_begin)
next
  case (Keypress k sel)
  have "renderSeq s = renderSeq (s\<lparr>selected := sel\<rparr>)" by simp
  also have "\<dots> \<le> renderSeq (fst (render_begin (int sel) (s\<lparr>selected := sel\<rparr>)))"
    by (rule renderSeq_render_begin)
  finally show ?thesis using Keypress by (simp add: list_on_keypress_def Let_def)
next
  case KeyR
  have "renderSeq s = renderSeq (s\<lparr>status_content := helpText @ ''  refreshing code...''\<rparr>)"
    by simp
  also have "\<dots> \<le> renderSeq (fst (render_begin (int (selected s))
      (s\<lparr>status_content := helpText @ ''  refreshing code...''\<rparr>)))"
    by (rule renderSeq_render_begin)
  finally show ?thesis using KeyR by (simp add: key_r_def)
next
  case KeyB
  then show ?thesis by (simp add: key_b_def)
next
  case KeyHelp
  then show ?thesis by (simp add: key_help_def)
next
  case KeyEscape
  then show ?thesis by (simp add: key_escape_def)
next
  case KeyQ
  then show ?thesis by (simp add: key_q_def)
next
  case (BranchesAnswer r)
  then show ?thesis by (simp add: key_b_resume_def)
next
  case (BoxSelect bs idx)
  then show ?thesis by (simp add: box_on_select_def)
next
  case (IssuesAnswer chosen page limit)
  show ?thesis
  proof (cases "getIssues page limit")
    case Failed
    with IssuesAnswer show ?thesis by (simp add: box_on_select_resume_def)
  next
    case (Resolved iss)
    let ?s = "s\<lparr>issues := iss, selected := 0, listLabel := (length iss, Some chosen)\<rparr>"
    have "renderSeq s = renderSeq ?s" by simp
    also have "\<dots> \<le> renderSeq (fst (render_begin 0 ?s))" by (rule renderSeq_render_begin)
    finally show ?thesis using IssuesAnswer Resolved by (simp add: box_on_select_resume_def)
  qed
next
  case BoxSelectDone
  then show ?thesis by (simp add: box_on_select_finish_def)
next
  case (SnippetAnswer mySeq i r)
  then show ?thesis by (simp add: render_resume_def)
qed

lemma renderSeq_run: "renderSeq s \<le> renderSeq (run evs s)"
proof (induction evs arbitrary: s)
  case Nil
  show ?case by simp
next
  case (Cons e evs)
  have "renderSeq s \<le> renderSeq (fst (step e s))" by (rule renderSeq_step)
  also have "\<dots> \<le> renderSeq (run evs (fst (step e s)))" by (rule Cons.IH)
  finally show ?case by simp
qed

lemma stale_answer_dropped:
  "k < renderSeq s \<Longrightarrow> step (SnippetAnswer k i r) (run evs s) = (run evs s, [])"
  using renderSeq_run [of s evs] by (simp add: render_resume_def)


lemma browseIssuesTui_nonempty:
  assumes "iss \<noteq> []"
  shows "browseIssuesTui iss b =
     (Some ((initial_tui iss b)\<lparr>lastRendered := 0, renderSeq := 1,
          detail_content := DetailOf (hd iss), code_content := CodeLoading\<rparr>),
      [Draw, RequestSnippet 1 (hd iss)])"
proof -
  obtain i rest where iss: "iss = i # rest" using assms by (cases iss) auto
  have "0 \<noteq> lastRendered (initial_tui iss b)"
    by (simp add: initial_tui_def)
  moreover have "issue_at (issues (initial_tui iss b)) 0 = Some i"
    by (simp add: issue_at_def initial_tui_def iss)
  ultimately have "render_begin 0 (initial_tui iss b) =
     ((initial_tui iss b)\<lparr>lastRendered := 0, renderSeq := renderSeq (initial_tui iss b) + 1,
          detail_content := DetailOf i, code_content := CodeLoading\<rparr>,
      [Draw, RequestSnippet (renderSeq (initial_tui iss b) + 1) i])"
    by (rule render_begin_other)
  then show ?thesis
    by (simp add: browseIssuesTui_def iss initial_tui_def)
qed

text \<open>
  What a branch choice does once the issues of the branch have arrived: the list is
  replaced and the selection reset in every case; the detail and code panes are redrawn
  and a snippet requested only when the last rendered index was not 0.
\<close>

lemma box_on_select_resume_replaces:
  "issues (fst (box_on_select_resume chosen (Resolved iss) s)) = iss
   \<and> selected (fst (box_on_select_resume chosen (Resolved iss) s)) = 0"
  by (simp add: box_on_select_resume_def render_begin_def Let_def split: option.split)

lemma box_on_select_resume_renders:
  assumes "lastRendered s \<noteq> 0" "iss \<noteq> []"
  shows "snd (box_on_select_resume chosen (Resolved iss) s) =
           [Draw, RequestSnippet (renderSeq s + 1) (hd iss)]
         \<and> detail_content (fst (box_on_select_resume chosen (Resolved iss) s)) = DetailOf (hd iss)"
proof -
  obtain i rest where iss: "iss = i # rest" using assms(2) by (cases iss) auto
  show ?thesis
    using assms(1)
    by (simp add: box_on_select_resume_def render_begin_def Let_def issue_at_def iss)
qed

lemma box_on_select_resume_skips:
  assumes "lastRendered s = 0"
  shows "box_on_select_resume chosen (Resolved iss) s =
           (s\<lparr>issues := iss, selected := 0, listLabel := (length iss, Some chosen)\<rparr>, [])"
  using assms by (simp add: box_on_select_resume_def render_begin_def)

text \<open>
  Whatever calls \<^verbatim>\<open>render\<close> with the index last rendered gets nothing done: the confirm,
  a move of the selection onto that index, and the refresh key, which only changes the
  status line.
\<close>

lemma list_on_select_same: "list_on_select (lastRendered s) s = (s, [])"
  by (simp add: list_on_select_def render_begin_def)

lemma key_r_same:
  "int (selected s) = lastRendered s \<Longrightarrow>
     key_r s = (s\<lparr>status_content := helpText @ ''  refreshing code...''\<rparr>, [])"
  by (simp add: key_r_def render_begin_def)

lemma list_on_keypress_same:
  "int sel = lastRendered s \<Longrightarrow> list_on_keypress k sel s = (s\<lparr>selected := sel\<rparr>, [])"
  by (simp add: list_on_keypress_def Let_def render_begin_def)

section \<open>Claims about the browser\<close>

text \<open>
  C1. Stale-result suppression. A snippet result that arrives with a sequence number
  other than the session's current \<^verbatim>\<open>renderSeq\<close> changes nothing and draws nothing; one
  that arrives with the current number sets the code pane. When two renders issue
  requests \<open>k\<close> and then \<open>k'\<close>, \<open>k'\<close> is \<open>k + 1\<close>, and from then on, whatever events
  come in between (the answer to \<open>k + 1\<close> among them), the answer to \<open>k\<close> is dropped:
  only the result tagged \<open>k + 1\<close> can reach the code pane.
\<close>

theorem stale_result_suppression:
  "(mySeq \<noteq> renderSeq s \<longrightarrow> render_resume mySeq i r s = (s, []))
   \<and> (mySeq = renderSeq s \<longrightarrow>
        render_resume mySeq i r s = (s\<lparr>code_content := code_of_result r i\<rparr>, [Draw]))
   \<and> (render_begin a s0 = (s1, [Draw, RequestSnippet k i1])
        \<and> render_begin b s1 = (s2, [Draw, RequestSnippet k' i2]) \<longrightarrow>
        k' = k + 1 \<and> renderSeq s2 = k + 1
        \<and> render_resume k i1 r1 s2 = (s2, [])
        \<and> render_resume k' i2 r2 s2 = (s2\<lparr>code_content := code_of_result r2 i2\<rparr>, [Draw])
        \<and> render_resume k i1 r1 (fst (render_resume k' i2 r2 s2)) =
            (fst (render_resume k' i2 r2 s2), [])
        \<and> (\<forall>evs. step (SnippetAnswer k i1 r1) (run evs s2) = (run evs s2, [])))"
proof (intro conjI impI)
  show "render_resume mySeq i r s = (s, [])" if "mySeq \<noteq> renderSeq s"
    using that by (simp add: render_resume_def)
  show "render_resume mySeq i r s = (s\<lparr>code_content := code_of_result r i\<rparr>, [Draw])"
    if "mySeq = renderSeq s"
    using that by (simp add: render_resume_def)
next
  assume a: "render_begin a s0 = (s1, [Draw, RequestSnippet k i1])
        \<and> render_begin b s1 = (s2, [Draw, RequestSnippet k' i2])"
  from a have k: "k = renderSeq s0 + 1" "renderSeq s1 = k"
    using render_begin_request [of a s0 s1 k i1] by simp_all
  from a have k': "k' = renderSeq s1 + 1" "renderSeq s2 = k'"
    using render_begin_request [of b s1 s2 k' i2] by simp_all
  show "k' = k + 1" using k k' by simp
  show "renderSeq s2 = k + 1" using k k' by simp
  have lt: "k < renderSeq s2" using k k' by simp
  then show "render_resume k i1 r1 s2 = (s2, [])"
    by (simp add: render_resume_def)
  show "render_resume k' i2 r2 s2 = (s2\<lparr>code_content := code_of_result r2 i2\<rparr>, [Draw])"
    using k' by (simp add: render_resume_def)
  show "render_resume k i1 r1 (fst (render_resume k' i2 r2 s2)) =
            (fst (render_resume k' i2 r2 s2), [])"
    using lt k' by (simp add: render_resume_def)
  show "\<forall>evs. step (SnippetAnswer k i1 r1) (run evs s2) = (run evs s2, [])"
    using lt by (intro allI stale_answer_dropped)
qed

text \<open>
  The witness: two issues; the first render issues request 1 for the first issue, moving
  down issues request 2 for the second. The answers arrive out of order, and the code
  pane ends with the answer to request 2.
\<close>

theorem stale_result_suppression_witness:
  "render_begin 0 (initial_tui [issue_a, issue_b] None) =
     (fst (render_begin 0 (initial_tui [issue_a, issue_b] None)), [Draw, RequestSnippet 1 issue_a])
   \<and> render_begin 1 (fst (render_begin 0 (initial_tui [issue_a, issue_b] None))) =
     (tui_after_down, [Draw, RequestSnippet 2 issue_b])
   \<and> code_content (run [SnippetAnswer 2 issue_b (Some (Window ''x'' ''>    7 | x'' 7 7 7)),
                         SnippetAnswer 1 issue_a None] tui_after_down) =
       CodeSnippet ''>    7 | x'' issue_b
   \<and> step (SnippetAnswer 1 issue_a None) tui_after_down = (tui_after_down, [])"
proof -
  let ?s0 = "initial_tui [issue_a, issue_b] None"
  let ?s1 = "fst (render_begin 0 ?s0)"
  let ?r2 = "Some (Window ''x'' ''>    7 | x'' 7 7 7)"
  have b1: "render_begin 0 ?s0 = (?s1, [Draw, RequestSnippet 1 issue_a])"
    by (simp add: render_begin_def initial_tui_def issue_at_def Let_def)
  have b2: "render_begin 1 ?s1 = (tui_after_down, [Draw, RequestSnippet 2 issue_b])"
    by (simp add: render_begin_def initial_tui_def issue_at_def Let_def tui_after_down_def)
  have ne: "(1::nat) \<noteq> renderSeq tui_after_down" "(2::nat) = renderSeq tui_after_down"
    by (simp_all add: tui_after_down_def)
  from stale_result_suppression [of 1 tui_after_down issue_a None 0 ?s0 ?s1 1 issue_a 1
      tui_after_down 2 issue_b None ?r2] b1 b2 ne
  have "render_resume 2 issue_b ?r2 tui_after_down =
          (tui_after_down\<lparr>code_content := code_of_result ?r2 issue_b\<rparr>, [Draw])"
    and "step (SnippetAnswer 1 issue_a None)
          (run [SnippetAnswer 2 issue_b ?r2] tui_after_down) =
          (run [SnippetAnswer 2 issue_b ?r2] tui_after_down, [])"
    and "render_resume 1 issue_a None tui_after_down = (tui_after_down, [])"
    by blast+
  then show ?thesis
    using b1 b2 by (simp add: code_of_result_def)
qed


text \<open>
  C9. Interactive start. With an empty issue list the browser prints \<^verbatim>\<open>No issues.\<close> and
  returns: no session exists, nothing is drawn and nothing is requested. With a
  non-empty list the session starts with selection 0 and the first issue rendered: its
  detail shown, the code pane loading, and snippet request 1 issued for it.
\<close>

theorem interactive_start:
  "(iss = [] \<longrightarrow> browseIssuesTui iss b = (None, [Print ''No issues.'']))
   \<and> (iss \<noteq> [] \<longrightarrow>
        (\<exists>s. browseIssuesTui iss b = (Some s, [Draw, RequestSnippet 1 (hd iss)])
             \<and> selected s = 0 \<and> issues s = iss \<and> lastRendered s = 0 \<and> renderSeq s = 1
             \<and> detail_content s = DetailOf (hd iss) \<and> code_content s = CodeLoading
             \<and> branchBox s = None))"
proof (intro conjI impI)
  assume "iss = []"
  then show "browseIssuesTui iss b = (None, [Print ''No issues.''])"
    by (simp add: browseIssuesTui_def)
next
  assume "iss \<noteq> []"
  then show "\<exists>s. browseIssuesTui iss b = (Some s, [Draw, RequestSnippet 1 (hd iss)])
             \<and> selected s = 0 \<and> issues s = iss \<and> lastRendered s = 0 \<and> renderSeq s = 1
             \<and> detail_content s = DetailOf (hd iss) \<and> code_content s = CodeLoading
             \<and> branchBox s = None"
    by (simp add: browseIssuesTui_nonempty initial_tui_def)
qed

theorem interactive_start_witness:
  "browseIssuesTui [] (Some ''main'') = (None, [Print ''No issues.''])
   \<and> (\<exists>s. browseIssuesTui [issue_a, issue_b] (Some ''main'') =
             (Some s, [Draw, RequestSnippet 1 issue_a]) \<and> selected s = 0)"
  using interactive_start [of "[]" "Some ''main''"]
        interactive_start [of "[issue_a, issue_b]" "Some ''main''"]
  by auto

text \<open>
  C2. The claim's second half holds (\<open>list_on_keypress_same\<close>): moving the selection onto
  the index last rendered requests nothing. Its first half does not hold of the code
  (\<open>list_on_select_same\<close>). One issue is listed and rendered at the start; a confirm on
  index 0 (the \<^verbatim>\<open>select\<close> event) then changes nothing and requests nothing, before the
  first answer and after it, and the refresh key requests nothing either.
\<close>

theorem confirm_on_rendered_index_skipped:
  "\<exists>s. browseIssuesTui [issue_a] None = (Some s, [Draw, RequestSnippet 1 issue_a])
       \<and> lastRendered s = 0
       \<and> list_on_select 0 s = (s, [])
       \<and> list_on_select 0 (fst (render_resume 1 issue_a None s)) =
           (fst (render_resume 1 issue_a None s), [])
       \<and> snd (key_r s) = []"
proof -
  let ?s = "(initial_tui [issue_a] None)\<lparr>lastRendered := 0, renderSeq := 1,
          detail_content := DetailOf (hd [issue_a]), code_content := CodeLoading\<rparr>"
  have "browseIssuesTui [issue_a] None = (Some ?s, [Draw, RequestSnippet 1 (hd [issue_a])])"
    by (rule browseIssuesTui_nonempty) simp
  moreover have "list_on_select 0 ?s = (?s, [])"
    by (simp add: list_on_select_def render_begin_def)
  moreover have "list_on_select 0 (fst (render_resume 1 issue_a None ?s)) =
           (fst (render_resume 1 issue_a None ?s), [])"
    by (simp add: list_on_select_def render_begin_def render_resume_def)
  moreover have "snd (key_r ?s) = []"
    by (simp add: key_r_def render_begin_def initial_tui_def)
  ultimately show ?thesis by auto
qed

text \<open>
  C6. On a branch choice the issue list is replaced by the answer for that branch and the
  selection is reset to 0 (\<open>box_on_select_resume_replaces\<close>), and when the index last
  rendered was not 0 the new first issue is rendered (\<open>box_on_select_resume_renders\<close>).
  When it was 0 the render is skipped. Two issues are listed and the first is rendered at
  the start; the branch \<^verbatim>\<open>develop\<close> is chosen and answers with one issue: the list and
  the selection change, nothing is drawn or requested, and the detail pane still shows
  the first issue of the previous list.
\<close>

theorem branch_switch_render_skipped:
  "\<exists>s. browseIssuesTui [issue_a, issue_b] None = (Some s, [Draw, RequestSnippet 1 issue_a])
       \<and> box_on_select [\<lparr>name = ''develop'', isMain = False\<rparr>] 0 s =
           Inr (s, [RequestIssues ''develop'' 2])
       \<and> box_on_select_resume ''develop'' (getIssues (Resolved [issue_dev]) 2) s =
           (s\<lparr>issues := [issue_dev], selected := 0, listLabel := (1, Some ''develop'')\<rparr>, [])
       \<and> detail_content (fst (box_on_select_resume ''develop''
             (getIssues (Resolved [issue_dev]) 2) s)) = DetailOf issue_a"
proof -
  let ?s = "(initial_tui [issue_a, issue_b] None)\<lparr>lastRendered := 0, renderSeq := 1,
          detail_content := DetailOf (hd [issue_a, issue_b]), code_content := CodeLoading\<rparr>"
  have "browseIssuesTui [issue_a, issue_b] None =
      (Some ?s, [Draw, RequestSnippet 1 (hd [issue_a, issue_b])])"
    by (rule browseIssuesTui_nonempty) simp
  moreover have "box_on_select [\<lparr>name = ''develop'', isMain = False\<rparr>] 0 ?s =
           Inr (?s, [RequestIssues ''develop'' 2])"
    by (simp add: box_on_select_def initial_tui_def)
  moreover have r: "box_on_select_resume ''develop'' (getIssues (Resolved [issue_dev]) 2) ?s =
           (?s\<lparr>issues := [issue_dev], selected := 0, listLabel := (1, Some ''develop'')\<rparr>, [])"
    by (simp add: getIssues_def box_on_select_resume_skips)
  moreover have "detail_content (fst (box_on_select_resume ''develop''
             (getIssues (Resolved [issue_dev]) 2) ?s)) = DetailOf issue_a"
    by (subst r) simp
  ultimately show ?thesis by auto
qed


section \<open>Facts about configuration objects\<close>

lemma get_prop_set_prop:
  "get_prop (set_prop k v ob) k' = (if k' = k then v else get_prop ob k')"
  by (simp add: get_prop_def set_prop_def update_conv')

lemma map_of_set_prop: "map_of (set_prop k v ob) = (map_of ob)(k \<mapsto> v)"
  by (simp add: set_prop_def update_conv')

lemma map_of_spread:
  "distinct (map fst b) \<Longrightarrow> map_of (spread a b) = map_of a ++ map_of b"
proof (induction b arbitrary: a)
  case Nil
  show ?case by (simp add: spread_def)
next
  case (Cons p b)
  obtain k v where p: "p = (k, v)" by (cases p)
  from Cons.prems p have notin: "k \<notin> dom (map_of b)" and d: "distinct (map fst b)"
    by (auto simp add: dom_map_of_conv_image_fst)
  have "map_of (spread a (p # b)) = map_of (spread (set_prop k v a) b)"
    by (simp add: spread_def p)
  also have "\<dots> = map_of (set_prop k v a) ++ map_of b"
    by (rule Cons.IH [OF d])
  also have "\<dots> = (map_of a)(k \<mapsto> v) ++ map_of b"
    by (simp add: map_of_set_prop)
  also have "\<dots> = map_of a ++ map_of (p # b)"
    using notin by (simp add: p map_add_upd_left)
  finally show ?case .
qed

lemma get_prop_spread:
  "distinct (map fst b) \<Longrightarrow>
     get_prop (spread a b) k = (case map_of b k of None \<Rightarrow> get_prop a k | Some v \<Rightarrow> v)"
  by (simp add: get_prop_def map_of_spread map_add_def split: option.split)

lemma spread_nothing: "spread a [] = a"
  by (simp add: spread_def)

lemma map_of_filter_kept:
  "map_of ob k = Some v \<Longrightarrow> P (k, v) \<Longrightarrow> map_of (filter P ob) k = Some v"
proof (induction ob)
  case Nil
  then show ?case by simp
next
  case (Cons p ob)
  obtain k' v' where p: "p = (k', v')" by (cases p)
  show ?case
  proof (cases "k' = k")
    case True
    with Cons.prems p show ?thesis by simp
  next
    case False
    with Cons p show ?thesis by simp
  qed
qed

lemma get_prop_stringify_members:
  "get_prop ob k \<noteq> JUndefined \<Longrightarrow> get_prop (stringify_members ob) k = get_prop ob k"
proof -
  assume a: "get_prop ob k \<noteq> JUndefined"
  then obtain v where v: "map_of ob k = Some v" "v \<noteq> JUndefined"
    by (auto simp add: get_prop_def split: option.splits)
  then have "map_of (filter (\<lambda>(k, v). v \<noteq> JUndefined) ob) k = Some v"
    by (intro map_of_filter_kept) simp_all
  with v show ?thesis by (simp add: get_prop_def stringify_members_def)
qed

lemma get_prop_assign_if:
  "get_prop (assign_if k v ob) k' =
     (if k' = k then layered v None (get_prop ob k') else get_prop ob k')"
  by (simp add: assign_if_def get_prop_set_prop layered_def split: option.split)

lemma get_prop_mask_token:
  "get_prop (mask_token ob) k =
     (if k = ''token'' \<and> truthy (get_prop ob ''token'') then JStr ''***'' else get_prop ob k)"
  by (simp add: mask_token_def get_prop_set_prop)

lemma distinct_envConfig: "distinct (map fst (envConfig e))"
  by (simp add: envConfig_def)

lemma distinct_envFiltered: "distinct (map fst (envFiltered (envConfig e)))"
  unfolding envFiltered_def by (rule distinct_map_filter) (rule distinct_envConfig)

lemma map_of_envConfig:
  "map_of (envConfig e) k =
     (if k = ''token'' then Some (of_env (env_token e))
      else if k = ''project'' then Some (of_env (env_project e))
      else if k = ''host'' then Some (of_env (env_host e))
      else if k = ''branch'' then Some (of_env (env_branch e))
      else None)"
  by (simp add: envConfig_def)

text \<open>Filtering an object of distinct keys keeps or drops each key on its own value.\<close>

lemma map_of_envFiltered:
  assumes "distinct (map fst ec)"
  shows "map_of (envFiltered ec) k =
           (case map_of ec k of
              None \<Rightarrow> None
            | Some v \<Rightarrow> if v \<noteq> JUndefined \<and> v \<noteq> JStr [] then Some v else None)"
  using assms
proof (induction ec)
  case Nil
  show ?case by (simp add: envFiltered_def)
next
  case (Cons p ec)
  obtain k' v' where p: "p = (k', v')" by (cases p)
  from Cons.prems p have d: "distinct (map fst ec)" and n: "map_of ec k' = None"
    by (auto simp add: map_of_eq_None_iff)
  have f: "envFiltered ((k', v') # ec) =
      (if v' \<noteq> JUndefined \<and> v' \<noteq> JStr [] then (k', v') # envFiltered ec
       else envFiltered ec)"
    by (simp add: envFiltered_def)
  show ?case
  proof (cases "k' = k")
    case True
    with n Cons.IH [OF d] show ?thesis unfolding p f by simp
  next
    case False
    with Cons.IH [OF d] show ?thesis unfolding p f by simp
  qed
qed

lemma env_layer:
  "(case (if of_env v \<noteq> JUndefined \<and> of_env v \<noteq> JStr [] then Some (of_env v) else None) of
      None \<Rightarrow> x | Some w \<Rightarrow> w) = layered None v x"
  by (cases v) (simp_all add: of_env_def layered_def)

text \<open>The file with the filtered environment spread over it.\<close>

lemma merged_before_flags:
  "get_prop (spread (readJsonIfExists f) (envFiltered (envConfig e))) k =
   (if k = ''token'' then layered None (env_token e) (get_prop (readJsonIfExists f) k)
    else if k = ''project'' then layered None (env_project e) (get_prop (readJsonIfExists f) k)
    else if k = ''host'' then layered None (env_host e) (get_prop (readJsonIfExists f) k)
    else if k = ''branch'' then layered None (env_branch e) (get_prop (readJsonIfExists f) k)
    else get_prop (readJsonIfExists f) k)"
proof -
  have m: "map_of (envFiltered (envConfig e)) k =
      (case map_of (envConfig e) k of
         None \<Rightarrow> None
       | Some v \<Rightarrow> if v \<noteq> JUndefined \<and> v \<noteq> JStr [] then Some v else None)"
    by (rule map_of_envFiltered [OF distinct_envConfig])
  show ?thesis
    unfolding get_prop_spread [OF distinct_envFiltered] m map_of_envConfig
    by (simp add: env_layer)
qed

lemma layered_twice: "layered v None (layered None w x) = layered v w x"
  by (simp add: layered_def split: option.split)

text \<open>
  Every property of the object \<^verbatim>\<open>buildRuntimeConfig\<close> returns: the four configuration
  keys by the precedence, \<^verbatim>\<open>json\<close> from the flag, anything else from the file, and the
  placeholder for a host no layer gives.
\<close>

lemma get_prop_buildRuntimeConfig:
  "get_prop (buildRuntimeConfig f e opts) k =
     (if k = ''json'' then (case opt_json opts of None \<Rightarrow> JUndefined | Some b \<Rightarrow> JBool b)
      else if k = ''host'' then
        (if truthy (layered (opt_host opts) (env_host e) (get_prop (readJsonIfExists f) k))
         then layered (opt_host opts) (env_host e) (get_prop (readJsonIfExists f) k)
         else JStr default_host)
      else if k = ''branch'' then
        layered (opt_branch opts) (env_branch e) (get_prop (readJsonIfExists f) k)
      else if k = ''project'' then
        layered (opt_project opts) (env_project e) (get_prop (readJsonIfExists f) k)
      else if k = ''token'' then
        layered (opt_token opts) (env_token e) (get_prop (readJsonIfExists f) k)
      else get_prop (readJsonIfExists f) k)"
proof -
  define m0 where "m0 = spread (readJsonIfExists f) (envFiltered (envConfig e))"
  define m5 where "m5 = set_prop ''json''
       (case opt_json opts of None \<Rightarrow> JUndefined | Some b \<Rightarrow> JBool b)
       (assign_if ''host'' (opt_host opts)
         (assign_if ''branch'' (opt_branch opts)
           (assign_if ''project'' (opt_project opts)
             (assign_if ''token'' (opt_token opts) m0))))"
  have b: "buildRuntimeConfig f e opts =
      (if \<not> truthy (get_prop m5 ''host'') then set_prop ''host'' (JStr default_host) m5
       else m5)"
    by (simp add: buildRuntimeConfig_def loadConfig_def Let_def m5_def m0_def)
  have g0: "get_prop m0 k' =
   (if k' = ''token'' then layered None (env_token e) (get_prop (readJsonIfExists f) k')
    else if k' = ''project'' then layered None (env_project e) (get_prop (readJsonIfExists f) k')
    else if k' = ''host'' then layered None (env_host e) (get_prop (readJsonIfExists f) k')
    else if k' = ''branch'' then layered None (env_branch e) (get_prop (readJsonIfExists f) k')
    else get_prop (readJsonIfExists f) k')" for k'
    unfolding m0_def by (rule merged_before_flags)
  have g5: "get_prop m5 k' =
      (if k' = ''json'' then (case opt_json opts of None \<Rightarrow> JUndefined | Some b \<Rightarrow> JBool b)
       else if k' = ''host'' then
         layered (opt_host opts) (env_host e) (get_prop (readJsonIfExists f) k')
       else if k' = ''branch'' then
         layered (opt_branch opts) (env_branch e) (get_prop (readJsonIfExists f) k')
       else if k' = ''project'' then
         layered (opt_project opts) (env_project e) (get_prop (readJsonIfExists f) k')
       else if k' = ''token'' then
         layered (opt_token opts) (env_token e) (get_prop (readJsonIfExists f) k')
       else get_prop (readJsonIfExists f) k')" for k'
    unfolding m5_def by (simp add: get_prop_set_prop get_prop_assign_if g0 layered_twice)
  show ?thesis
    unfolding b by (simp add: get_prop_set_prop g5)
qed

lemma buildRuntimeConfig_precedence:
  "get_prop (buildRuntimeConfig f e opts) ''token'' =
     layered (opt_token opts) (env_token e) (get_prop (readJsonIfExists f) ''token'')
   \<and> get_prop (buildRuntimeConfig f e opts) ''project'' =
     layered (opt_project opts) (env_project e) (get_prop (readJsonIfExists f) ''project'')
   \<and> get_prop (buildRuntimeConfig f e opts) ''branch'' =
     layered (opt_branch opts) (env_branch e) (get_prop (readJsonIfExists f) ''branch'')
   \<and> get_prop (buildRuntimeConfig f e opts) ''host'' =
     (if truthy (layered (opt_host opts) (env_host e) (get_prop (readJsonIfExists f) ''host''))
      then layered (opt_host opts) (env_host e) (get_prop (readJsonIfExists f) ''host'')
      else JStr default_host)"
  by (simp add: get_prop_buildRuntimeConfig)

text \<open>
  The scenario of the specification on \<^verbatim>\<open>buildRuntimeConfig\<close>: the file holds token
  \<^verbatim>\<open>a\<close>, the environment \<^verbatim>\<open>b\<close>, the flag \<^verbatim>\<open>c\<close>.
\<close>

lemma precedence_scenario:
  "get_prop (buildRuntimeConfig file_a (env_unset\<lparr>env_token := Some ''b''\<rparr>)
      (no_flags\<lparr>opt_token := Some ''c''\<rparr>)) ''token'' = JStr ''c''
   \<and> get_prop (buildRuntimeConfig file_a (env_unset\<lparr>env_token := Some ''b''\<rparr>) no_flags)
        ''token'' = JStr ''b''
   \<and> get_prop (buildRuntimeConfig file_a env_unset no_flags) ''token'' = JStr ''a''"
proof -
  have "get_prop (readJsonIfExists file_a) ''token'' = JStr ''a''"
    by (simp add: file_a_def readJsonIfExists_def get_prop_def)
  then show ?thesis
    by (simp add: buildRuntimeConfig_precedence layered_def env_unset_def no_flags_def)
qed


text \<open>What \<^verbatim>\<open>print-config\<close> merges: every one of the four keys comes from the environment alone.\<close>

lemma print_config_merged:
  "get_prop (spread (readJsonIfExists f) (envConfig e)) k =
     (if k = ''token'' then of_env (env_token e)
      else if k = ''project'' then of_env (env_project e)
      else if k = ''host'' then of_env (env_host e)
      else if k = ''branch'' then of_env (env_branch e)
      else get_prop (readJsonIfExists f) k)"
  by (simp add: get_prop_spread [OF distinct_envConfig] map_of_envConfig)

text \<open>Facts about \<^verbatim>\<open>config set\<close>.\<close>

lemma cut_at_equals:
  "CHR ''='' \<notin> set k \<Longrightarrow>
     takeWhile (\<lambda>c. c \<noteq> CHR ''='') (k @ CHR ''='' # v) = k
     \<and> dropWhile (\<lambda>c. c \<noteq> CHR ''='') (k @ CHR ''='' # v) = CHR ''='' # v"
  by (induction k) auto

lemma parse_pair_joined:
  "CHR ''='' \<notin> set k \<Longrightarrow> parse_pair (k @ ''='' @ v) = Some (k, v)"
  by (simp add: parse_pair_def cut_at_equals)

lemma distinct_assign_update:
  "distinct (map fst u) \<Longrightarrow> distinct (map fst (assign_update k v u))"
  by (simp add: assign_update_def set_prop_def distinct_update)

lemma distinct_collect_updates:
  "collect_updates pairs u = Inr U \<Longrightarrow> distinct (map fst u) \<Longrightarrow> distinct (map fst U)"
proof (induction pairs arbitrary: u)
  case Nil
  then show ?case by simp
next
  case (Cons p pairs)
  from Cons.prems(1) obtain k v where kv: "parse_pair p = Some (k, v)"
    by (cases "parse_pair p") auto
  with Cons.prems(1) have "collect_updates pairs (assign_update k v u) = Inr U" by simp
  moreover have "distinct (map fst (assign_update k v u))"
    using Cons.prems(2) by (rule distinct_assign_update)
  ultimately show ?case by (rule Cons.IH)
qed

text \<open>The updates hold, for every key given other than \<^verbatim>\<open>__proto__\<close>, the value of its last pair.\<close>

lemma collect_updates_append:
  "collect_updates (pairs @ [p]) u =
     (case collect_updates pairs u of Inl bad \<Rightarrow> Inl bad | Inr U \<Rightarrow> collect_updates [p] U)"
  by (induction pairs arbitrary: u) (simp_all split: option.split)

lemma collect_updates_last:
  assumes "collect_updates pairs u = Inr U" "parse_pair p = Some (k, v)" "k \<noteq> ''__proto__''"
  shows "\<exists>U'. collect_updates (pairs @ [p]) u = Inr U' \<and> map_of U' k = Some (JStr v)
           \<and> (\<forall>k'. k' \<noteq> k \<longrightarrow> map_of U' k' = map_of U k')"
  using assms by (simp add: collect_updates_append assign_update_def map_of_set_prop)

section \<open>Claims about configuration\<close>

text \<open>
  C7. \<^verbatim>\<open>buildRuntimeConfig\<close>, which every command but one resolves its configuration
  with, follows the claimed precedence (\<open>buildRuntimeConfig_precedence\<close>,
  \<open>precedence_scenario\<close>). The \<^verbatim>\<open>print-config\<close> command merges for itself and does not:
  it spreads the unfiltered \<^verbatim>\<open>envConfig\<close> over the file, so an unset variable overrides
  the file's value with \<^verbatim>\<open>undefined\<close>. With token \<^verbatim>\<open>a\<close> and a project in the file, no
  variable set and no flag, the resolved token is \<^verbatim>\<open>a\<close>, and \<^verbatim>\<open>print-config\<close> prints an
  object in which all four keys are \<^verbatim>\<open>undefined\<close>, so that no member is written.
\<close>

theorem print_config_ignores_file:
  "get_prop (buildRuntimeConfig file_a env_unset no_flags) ''token'' = JStr ''a''
   \<and> print_config file_a env_unset =
       [StdoutJson [(''token'', JUndefined), (''project'', JUndefined), (''host'', JUndefined),
                    (''branch'', JUndefined)]]
   \<and> stringify_members [(''token'', JUndefined), (''project'', JUndefined),
                          (''host'', JUndefined), (''branch'', JUndefined)] = []"
proof -
  have "get_prop (readJsonIfExists file_a) ''token'' = JStr ''a''"
    by (simp add: file_a_def readJsonIfExists_def get_prop_def)
  then have "get_prop (buildRuntimeConfig file_a env_unset no_flags) ''token'' = JStr ''a''"
    by (simp add: buildRuntimeConfig_precedence layered_def env_unset_def no_flags_def)
  moreover have "print_config file_a env_unset =
       [StdoutJson [(''token'', JUndefined), (''project'', JUndefined), (''host'', JUndefined),
                    (''branch'', JUndefined)]]"
    by (simp add: print_config_def loadConfig_def envConfig_def readJsonIfExists_def file_a_def
        env_unset_def of_env_def spread_def set_prop_def mask_token_def get_prop_def)
  moreover have "stringify_members [(''token'', JUndefined), (''project'', JUndefined),
                          (''host'', JUndefined), (''branch'', JUndefined)] = []"
    by (simp add: stringify_members_def)
  ultimately show ?thesis by simp
qed

text \<open>
  The three renderings that reach their printout show \<^verbatim>\<open>***\<close> for the token whenever the
  configuration they render has a truthy token, which for a string is a non-empty one:
  \<^verbatim>\<open>print-config\<close> on the file with the environment spread over it,
  \<^verbatim>\<open>metrics --print-config\<close> on the resolved runtime configuration, and
  \<^verbatim>\<open>config get token\<close> whenever the file has a token at all. So would the action of
  \<^verbatim>\<open>config show\<close>, were it given its command.
\<close>

lemma mask_token_shown:
  "truthy (get_prop ob ''token'') \<Longrightarrow>
     get_prop (stringify_members (mask_token ob)) ''token'' = JStr ''***''"
proof -
  assume "truthy (get_prop ob ''token'')"
  then have "get_prop (mask_token ob) ''token'' = JStr ''***''"
    by (simp add: get_prop_mask_token)
  then show ?thesis by (simp add: get_prop_stringify_members)
qed

lemma token_masked_where_rendered:
  "(truthy (get_prop (spread (readJsonIfExists f) (envConfig e)) ''token'') \<longrightarrow>
      (\<exists>ob. print_config f e = [StdoutJson ob]
            \<and> get_prop (stringify_members ob) ''token'' = JStr ''***''))
   \<and> (map_of (readJsonIfExists f) ''token'' \<noteq> None \<longrightarrow>
      config_get ''token'' f e = ([Stdout ''***''], None))
   \<and> (truthy (get_prop (buildRuntimeConfig f e opts) ''token'') \<longrightarrow>
      (\<exists>ob. metrics_print_config f e opts = [StdoutJson ob]
            \<and> get_prop (stringify_members ob) ''token'' = JStr ''***''))
   \<and> (truthy (get_prop (readJsonIfExists f) ''token'') \<longrightarrow>
      (\<exists>ob. config_show_action (Some ()) f e = Inr [StdoutJson ob]
            \<and> get_prop (stringify_members ob) ''token'' = JStr ''***''))"
proof -
  have "print_config f e = [StdoutJson (mask_token (spread (readJsonIfExists f) (envConfig e)))]"
    by (simp add: print_config_def loadConfig_def)
  moreover have "config_show_action (Some ()) f e =
      Inr [StdoutJson (mask_token (readJsonIfExists f))]"
    by (simp add: config_show_action_def loadConfig_def spread_nothing)
  moreover have "metrics_print_config f e opts =
      [StdoutJson (mask_token (buildRuntimeConfig f e opts))]"
    by (simp add: metrics_print_config_def spread_nothing)
  moreover have "config_get ''token'' f e = ([Stdout ''***''], None)"
    if "map_of (readJsonIfExists f) ''token'' \<noteq> None"
    using that by (simp add: config_get_def loadConfig_def)
  ultimately show ?thesis by (simp add: mask_token_shown)
qed

text \<open>
  C8. Of the four renderings the claim names, three show \<^verbatim>\<open>***\<close> for a non-empty token
  (\<open>token_masked_where_rendered\<close>). \<^verbatim>\<open>config show\<close> does not render at all: the command
  is called without the third argument its action reads, so with any stored file, here one
  holding token \<^verbatim>\<open>a\<close>, it throws before the file is loaded and writes nothing. Given its
  command, the same action prints the stored object with the token masked.
\<close>

theorem config_show_throws:
  "get_prop (readJsonIfExists file_a) ''token'' = JStr ''a''
   \<and> config_show file_a env_unset = Inl TypeError
   \<and> config_show_action (Some ()) file_a env_unset =
       Inr [StdoutJson [(''token'', JStr ''***''), (''project'', JStr ''proj'')]]"
  by (simp add: config_show_def config_show_action_def loadConfig_def readJsonIfExists_def
      file_a_def get_prop_def spread_def mask_token_def set_prop_def)

text \<open>
  C10. Frame property of \<^verbatim>\<open>config set\<close>. When the file holds a JSON object \<open>C\<close> and every
  pair has an \<^verbatim>\<open>=\<close>, so that the updates \<open>U\<close> are collected, the command writes \<open>C\<close> with
  \<open>U\<close> spread over it: every key of \<open>U\<close> has its new value, every other key has the
  value it had in \<open>C\<close>, and no key of \<open>C\<close> is lost.
\<close>

theorem config_set_frame:
  assumes "collect_updates pairs [] = Inr U"
  shows "\<exists>W. config_set path pairs (Parsed C) = (Parsed W, [Stdout (''Updated '' @ path)], None)
           \<and> writeConfig U (Parsed C) = (Parsed W, W)
           \<and> (\<forall>k v. map_of U k = Some v \<longrightarrow> map_of W k = Some v)
           \<and> (\<forall>k. map_of U k = None \<longrightarrow> map_of W k = map_of C k)
           \<and> dom (map_of C) \<subseteq> dom (map_of W)"
proof -
  have d: "distinct (map fst U)"
    using assms by (rule distinct_collect_updates) simp
  have m: "map_of (spread C U) = map_of C ++ map_of U"
    using d by (rule map_of_spread)
  have w: "writeConfig U (Parsed C) = (Parsed (spread C U), spread C U)"
    by (simp add: writeConfig_def Let_def)
  have "config_set path pairs (Parsed C) =
      (Parsed (spread C U), [Stdout (''Updated '' @ path)], None)"
    using assms by (simp add: config_set_def w)
  moreover have "\<forall>k v. map_of U k = Some v \<longrightarrow> map_of (spread C U) k = Some v"
    by (simp add: m)
  moreover have "\<forall>k. map_of U k = None \<longrightarrow> map_of (spread C U) k = map_of C k"
    by (simp add: m map_add_def)
  moreover have "dom (map_of C) \<subseteq> dom (map_of (spread C U))"
    by (simp add: m)
  ultimately show ?thesis using w by blast
qed

theorem config_set_frame_witness:
  "collect_updates [''host=https://sonar.example.com'', ''project=other''] [] =
     Inr [(''host'', JStr ''https://sonar.example.com''), (''project'', JStr ''other'')]
   \<and> fst (config_set ''/home/u/.config/sonarqube-dash-cli/config.json''
        [''host=https://sonar.example.com'', ''project=other''] file_a) =
      Parsed [(''token'', JStr ''a''), (''project'', JStr ''other''),
              (''host'', JStr ''https://sonar.example.com'')]"
proof -
  let ?pairs = "[''host=https://sonar.example.com'', ''project=other'']"
  let ?U = "[(''host'', JStr ''https://sonar.example.com''), (''project'', JStr ''other'')]"
  have p1: "parse_pair ''host=https://sonar.example.com'' = Some (''host'', ''https://sonar.example.com'')"
    using parse_pair_joined [of "''host''" "''https://sonar.example.com''"] by simp
  have p2: "parse_pair ''project=other'' = Some (''project'', ''other'')"
    using parse_pair_joined [of "''project''" "''other''"] by simp
  have u: "collect_updates ?pairs [] = Inr ?U"
    by (simp add: p1 p2 assign_update_def set_prop_def)
  have s: "spread [(''token'', JStr ''a''), (''project'', JStr ''proj'')] ?U =
      [(''token'', JStr ''a''), (''project'', JStr ''other''),
       (''host'', JStr ''https://sonar.example.com'')]"
    by (simp add: spread_def set_prop_def)
  from config_set_frame [OF u, of "''/home/u/.config/sonarqube-dash-cli/config.json''"
      "[(''token'', JStr ''a''), (''project'', JStr ''proj'')]"]
  obtain W where
    "config_set ''/home/u/.config/sonarqube-dash-cli/config.json'' ?pairs
       (Parsed [(''token'', JStr ''a''), (''project'', JStr ''proj'')]) =
     (Parsed W, [Stdout (''Updated '' @ ''/home/u/.config/sonarqube-dash-cli/config.json'')], None)"
    and "writeConfig ?U (Parsed [(''token'', JStr ''a''), (''project'', JStr ''proj'')]) =
      (Parsed W, W)"
    by blast
  then show ?thesis
    using u by (simp add: file_a_def writeConfig_def Let_def s)
qed


end
